theory Spec2Isabelle
  imports Complex_Main "HOL-Library.Sublist"
begin

section \<open>Tour.js: data model\<close>

text \<open>
  The two classes of the library, \<^verbatim>\<open>Tour\<close> (src/classes/Tour.js) and \<^verbatim>\<open>Spotlight\<close>
  (src/classes/Spotlight.js), are embedded as functions on records. JavaScript numbers that
  carry pixel lengths are modelled as reals (the arithmetic of the code is exact there up to
  the rounding of doubles); the step index is an integer or \<^verbatim>\<open>NaN\<close>.
\<close>

subsection \<open>Rectangles\<close>

text \<open>
  A \<^verbatim>\<open>DOMRect\<close> as returned by \<^verbatim>\<open>getBoundingClientRect()\<close>: position and size, with
  \<^verbatim>\<open>right\<close> and \<^verbatim>\<open>bottom\<close> derived as the DOM defines them.
\<close>

record rect =
  rect_left :: real
  rect_top :: real
  rect_width :: real
  rect_height :: real

definition rect_right :: "rect \<Rightarrow> real" where
  "rect_right r = rect_left r + rect_width r"

definition rect_bottom :: "rect \<Rightarrow> real" where
  "rect_bottom r = rect_top r + rect_height r"

definition zero_rect :: rect where
  "zero_rect = \<lparr>rect_left = 0, rect_top = 0, rect_width = 0, rect_height = 0\<rparr>"

subsection \<open>Errors and outcomes\<close>

text \<open>
  A JavaScript exception leaves the mutations made before it in place. A method that mutates
  therefore returns an outcome that carries the state in both cases.
\<close>

datatype error = TypeError | SyntaxError

datatype 's outcome = Done 's | Raised error 's

fun state_of :: "'s outcome \<Rightarrow> 's" where
  "state_of (Done s) = s"
| "state_of (Raised e s) = s"

fun and_then :: "'s outcome \<Rightarrow> ('s \<Rightarrow> 's outcome) \<Rightarrow> 's outcome" where
  "and_then (Done s) f = f s"
| "and_then (Raised e s) f = Raised e s"

fun returned :: "'s outcome \<Rightarrow> bool" where
  "returned (Done s) = True"
| "returned (Raised e s) = False"

subsection \<open>Elements created by the library\<close>

text \<open>
  The popup and the four overlay panels are \<^verbatim>\<open>div\<close> elements made with
  \<^verbatim>\<open>document.createElement('div')\<close>. The model keeps the parts the code writes: the
  class list, the content, the inline \<^verbatim>\<open>left\<close>, \<^verbatim>\<open>top\<close> and \<^verbatim>\<open>height\<close> (a length in
  pixels, \<open>None\<close> while unset) and whether the element is in the document. The markup assigned
  to \<^verbatim>\<open>innerHTML\<close> is represented by the element tree it denotes.
\<close>

datatype html_node =
    Img string
  | P string
  | Button string string string
  | Div string "html_node list"

record div_element =
  classList :: "string list"
  innerHTML :: "html_node list"
  style_left :: "real option"
  style_top :: "real option"
  style_height :: "real option"
  attached :: bool

definition createElement_div :: div_element where
  "createElement_div =
     \<lparr>classList = [], innerHTML = [], style_left = None, style_top = None,
      style_height = None, attached = False\<rparr>"

subsection \<open>The page: what the browser answers\<close>

type_synonym view = "real \<times> real"

text \<open>
  The layout provider. The scroll position (\<open>view\<close>) decides the viewport-relative rectangle
  of an element of the page; \<open>scrollIntoView\<close> is the browser's answer to
  \<^verbatim>\<open>element.scrollIntoView(alignToTop)\<close> under the element's scroll margin; \<open>cssBox\<close> is
  the box the stylesheet lays out for an element of the library, given its class list and
  content. The stylesheet (tour.css) is not among the source files, so the box is a
  parameter of the page.
\<close>

record page =
  hasElement :: "string \<Rightarrow> bool"
  elementRect :: "view \<Rightarrow> string \<Rightarrow> rect"
  elementOffsetTop :: "string \<Rightarrow> real"
  bodyRect :: "view \<Rightarrow> rect"
  bodyOffsetHeight :: real
  innerWidth :: real
  innerHeight :: real
  cssBox :: "string list \<Rightarrow> html_node list \<Rightarrow> rect"
  scrollIntoView :: "string \<Rightarrow> bool \<Rightarrow> real \<Rightarrow> view \<Rightarrow> view"

text \<open>
  Modelled from the spec: the stylesheet tour.css, which positions the popup and the overlay
  panels, is missing. The spec speaks of "four independently positioned rectangular panels"
  and of a popup placed at coordinates, so an element of the library is taken to be a
  positioned box: its rectangle is the box of the stylesheet with the inline \<^verbatim>\<open>left\<close>,
  \<^verbatim>\<open>top\<close> and \<^verbatim>\<open>height\<close> in place of the stylesheet's where they are set. An element
  that is not in the document has the zero rectangle.
\<close>

definition getBoundingClientRect :: "page \<Rightarrow> div_element \<Rightarrow> rect" where
  "getBoundingClientRect pg d =
     (if \<not> attached d then zero_rect
      else let b = cssBox pg (classList d) (innerHTML d) in
        \<lparr>rect_left = (case style_left d of Some l \<Rightarrow> l | None \<Rightarrow> rect_left b),
         rect_top = (case style_top d of Some t \<Rightarrow> t | None \<Rightarrow> rect_top b),
         rect_width = rect_width b,
         rect_height = (case style_height d of Some h \<Rightarrow> h | None \<Rightarrow> rect_height b)\<rparr>)"

text \<open>A negative length is not a valid \<^verbatim>\<open>height\<close>: the assignment is dropped.\<close>

definition set_style_height :: "real \<Rightarrow> div_element \<Rightarrow> div_element" where
  "set_style_height h d = (if 0 \<le> h then d\<lparr>style_height := Some h\<rparr> else d)"

subsection \<open>Steps, options, the Spotlight and the Tour\<close>

record tour_step =
  step_id :: "string option"
  step_text :: string
  step_img :: "string option"

record options =
  disableScroll :: bool
  spotlight_opt :: bool
  language :: string
  scrollMargin :: real

text \<open>The argument of \<^verbatim>\<open>setOptions\<close>: a property that is absent or undefined is \<open>None\<close>.\<close>

record options_arg =
  arg_disableScroll :: "bool option"
  arg_spotlight :: "bool option"
  arg_language :: "string option"
  arg_scrollMargin :: "real option"

record Spotlight =
  padding :: real
  spotlight_panels :: "div_element list"

datatype jsnum = Num int | NaN

text \<open>
  The fields of a \<^verbatim>\<open>Tour\<close>. \<open>currentElement\<close> holds the id of the target element;
  \<open>observed\<close> lists the targets of the instance's \<^verbatim>\<open>ResizeObserver\<close>; the variable map is
  the list of its entries in the order \<^verbatim>\<open>for ... in\<close> enumerates them.
\<close>

record tour =
  varName :: string
  steps :: "tour_step list"
  step :: jsnum
  currentState :: int
  currentElement :: "string option"
  popupElement :: "div_element option"
  spotlight :: "Spotlight option"
  textVariables :: "(string \<times> string) list"
  options :: options
  observed :: "string list"

subsection \<open>The window\<close>

datatype log = Warn string | Error string

text \<open>
  The object \<^verbatim>\<open>save()\<close> serialises, as \<^verbatim>\<open>JSON.parse\<close> gives it back
  (\<^verbatim>\<open>styles\<close> is undefined and so not written).
\<close>

record saved_tour =
  saved_currentState :: string
  saved_steps :: "tour_step list"
  saved_step :: string
  saved_options :: options
  saved_textVariables :: "(string \<times> string) list"

text \<open>
  \<open>onresize\<close> says whether the tour's debounced re-render handler is installed;
  \<open>onscroll\<close> holds the position the scroll lock scrolls back to.
\<close>

record window =
  scroll :: view
  onresize :: bool
  onscroll :: "view option"
  console :: "log list"
  sessionStorage :: "string \<rightharpoonup> saved_tour"

section \<open>Tour: construction and options\<close>

definition setOptions :: "options_arg option \<Rightarrow> tour \<Rightarrow> tour" where
  "setOptions arg t =
     (let a = (case arg of
                 None \<Rightarrow> \<lparr>arg_disableScroll = None, arg_spotlight = None,
                           arg_language = None, arg_scrollMargin = None\<rparr>
               | Some a \<Rightarrow> a);
          disableScroll' = (case arg_disableScroll a of None \<Rightarrow> True | Some b \<Rightarrow> b);
          spotlight' = (case arg_spotlight a of None \<Rightarrow> True | Some b \<Rightarrow> b);
          language' = (case arg_language a of None \<Rightarrow> ''en'' | Some l \<Rightarrow> l);
          scrollMargin' = (case arg_scrollMargin a of None \<Rightarrow> 50 | Some m \<Rightarrow> m)
      in t\<lparr>options := \<lparr>disableScroll = disableScroll', spotlight_opt = spotlight',
                         language = language', scrollMargin = scrollMargin'\<rparr>\<rparr>)"

definition setTextVariables :: "(string \<times> string) list \<Rightarrow> tour \<Rightarrow> tour" where
  "setTextVariables variables t = t\<lparr>textVariables := variables\<rparr>"

text \<open>The constructor; \<open>stepArg = None\<close> is the omitted third argument.\<close>

definition new_Tour :: "string \<Rightarrow> tour_step list \<Rightarrow> jsnum option \<Rightarrow> tour" where
  "new_Tour name stepList stepArg =
     setOptions None
       \<lparr>varName = name, steps = stepList,
        step = (case stepArg of None \<Rightarrow> Num 0 | Some n \<Rightarrow> n),
        currentState = 0, currentElement = None, popupElement = None, spotlight = None,
        textVariables = [],
        options = \<lparr>disableScroll = True, spotlight_opt = True, language = ''en'',
                   scrollMargin = 50\<rparr>,
        observed = []\<rparr>"

section \<open>Tour: popup content\<close>

subsection \<open>\<^verbatim>\<open>String.prototype.replace\<close> with a string pattern\<close>

text \<open>
  \<^verbatim>\<open>text.replace(pattern, replaceValue)\<close> with a string pattern replaces the first
  occurrence of the pattern only, and expands the patterns \<^verbatim>\<open>$$\<close>, \<^verbatim>\<open>$&\<close>,
  \<^verbatim>\<open>$`\<close> and \<^verbatim>\<open>$'\<close> of the replacement value (a string pattern has no capture
  groups, so \<^verbatim>\<open>$1\<close> and the like stay as they are).
\<close>

fun split_first :: "string \<Rightarrow> string \<Rightarrow> (string \<times> string) option" where
  "split_first pat [] = (if pat = [] then Some ([], []) else None)"
| "split_first pat (c # cs) =
     (if prefix pat (c # cs) then Some ([], drop (length pat) (c # cs))
      else map_option (\<lambda>(front, rest). (c # front, rest)) (split_first pat cs))"

fun getSubstitution :: "string \<Rightarrow> string \<Rightarrow> string \<Rightarrow> string \<Rightarrow> string" where
  "getSubstitution matched front rest [] = []"
| "getSubstitution matched front rest [c] = [c]"
| "getSubstitution matched front rest (c # d # cs) =
     (if c = CHR ''$'' then
        (if d = CHR ''$'' then CHR ''$'' # getSubstitution matched front rest cs
         else if d = CHR ''&'' then matched @ getSubstitution matched front rest cs
         else if d = CHR 0x60 then front @ getSubstitution matched front rest cs
         else if d = CHR 0x27 then rest @ getSubstitution matched front rest cs
         else c # getSubstitution matched front rest (d # cs))
      else c # getSubstitution matched front rest (d # cs))"

definition replace :: "string \<Rightarrow> string \<Rightarrow> string \<Rightarrow> string" where
  "replace txt pat replaceValue =
     (case split_first pat txt of
        None \<Rightarrow> txt
      | Some (front, rest) \<Rightarrow>
          front @ getSubstitution pat front rest replaceValue @ rest)"

subsection \<open>\<^verbatim>\<open>updatePopup\<close>\<close>

text \<open>The loop over the text variables at the head of \<^verbatim>\<open>updatePopup\<close>.\<close>

definition formatText :: "(string \<times> string) list \<Rightarrow> string \<Rightarrow> string" where
  "formatText variables txt =
     foldl (\<lambda>acc (variable, val). replace acc (''PLACEHOLDER-'' @ variable) val)
       txt variables"

text \<open>\<^verbatim>\<open>this.steps[this.step]\<close>: undefined (\<open>None\<close>) outside the list.\<close>

definition stepAt :: "tour_step list \<Rightarrow> jsnum \<Rightarrow> tour_step option" where
  "stepAt stepList n =
     (case n of
        NaN \<Rightarrow> None
      | Num i \<Rightarrow> if 0 \<le> i \<and> i < int (length stepList) then Some (stepList ! nat i) else None)"

definition isLastStep :: "tour \<Rightarrow> bool" where
  "isLastStep t = (step t = Num (int (length (steps t)) - 1))"

text \<open>The labels \<open>(prevText, nextText, endText)\<close> for a language.\<close>

definition buttonTexts :: "string \<Rightarrow> string \<times> string \<times> string" where
  "buttonTexts lang =
     (if lang \<noteq> [] then
        (if lang = ''fr'' then (''Retour'', ''Suivant'', ''Terminer le tour'')
         else (''Previous'', ''Next'', ''End tour''))
      else (''Previous'', ''Next'', ''End tour''))"

definition popupHtml :: "tour \<Rightarrow> tour_step \<Rightarrow> html_node list" where
  "popupHtml t s =
     (let txt = formatText (textVariables t) (step_text s);
          (prevText, nextText, endText) = buttonTexts (language (options t))
      in (case step_img s of
            None \<Rightarrow> []
          | Some src \<Rightarrow> if src \<noteq> [] then [Img src] else [])
         @ [P txt,
            Div ''tour-button-container''
              ((if step t \<noteq> Num 0
                then [Button ''tour-button tour-button--previous''
                        (varName t @ ''.previous()'') prevText]
                else [])
               @ [Button ''tour-button tour-button--next'' (varName t @ ''.next()'')
                    (if isLastStep t then endText else nextText)])])"

definition updatePopup :: "tour \<Rightarrow> error + tour" where
  "updatePopup t =
     (case stepAt (steps t) (step t) of
        None \<Rightarrow> Inl TypeError
      | Some s \<Rightarrow>
          (case popupElement t of
             None \<Rightarrow> Inl TypeError
           | Some popup \<Rightarrow>
               Inr (t\<lparr>popupElement := Some (popup\<lparr>innerHTML := popupHtml t s\<rparr>)\<rparr>)))"

section \<open>Tour: popup position\<close>

definition getCenterPos :: "page \<Rightarrow> tour \<Rightarrow> error + (real \<times> real)" where
  "getCenterPos pg t =
     (case popupElement t of
        None \<Rightarrow> Inl TypeError
      | Some popup \<Rightarrow>
          let popupRect = getBoundingClientRect pg popup
          in Inr (innerWidth pg / 2 - rect_width popupRect / 2,
                  innerHeight pg / 2 - rect_height popupRect / 2))"

text \<open>\<^verbatim>\<open>element.offsetTop < docH / 2\<close>: the target lies in the upper half of the document.\<close>

definition getTopOrBottom :: "page \<Rightarrow> string \<Rightarrow> bool" where
  "getTopOrBottom pg el = (elementOffsetTop pg el < bodyOffsetHeight pg / 2)"

text \<open>
  The arithmetic of \<^verbatim>\<open>getPopupPos\<close> on the three rectangles it measures and the height
  of the viewport. The second component says whether the branch taken calls
  \<^verbatim>\<open>scrollIntoView(true)\<close> again.
\<close>

definition popupPos :: "rect \<Rightarrow> rect \<Rightarrow> rect \<Rightarrow> real \<Rightarrow> (real \<times> real) \<times> bool" where
  "popupPos docRect r popupRect winHeight =
     (let offset = 10;
          under = (rect_left r + rect_width r / 2 - rect_width popupRect / 2,
                   rect_bottom r + offset);
          (pos, again) =
            (if rect_width docRect - rect_width r \<le> rect_width docRect / 2 then
               (if rect_bottom r < winHeight / 2 then (under, False)
                else ((rect_left r + rect_width r / 2 - rect_width popupRect / 2,
                       rect_top r - offset - rect_height popupRect), False))
             else if rect_right r < rect_width docRect / 2 then
               (let pos = (rect_right r + offset,
                           rect_top r + rect_height r / 2 - rect_height popupRect / 2)
                in if rect_width docRect - rect_width popupRect < rect_right r
                   then (under, True) else (pos, False))
             else
               (let pos = (if rect_left r - offset - rect_width popupRect < 0 then 0
                           else rect_left r - offset - rect_width popupRect,
                           rect_top r + rect_height r / 2 - rect_height popupRect / 2)
                in if rect_width popupRect > rect_left r
                   then (under, True) else (pos, False)))
      in ((\<bar>fst pos\<bar>, \<bar>snd pos\<bar>), again))"

text \<open>
  \<^verbatim>\<open>getPopupPos\<close>: scroll the target into view under the scroll margin of the options,
  measure, compute. The result is the position (or the exception) and the window after the
  scrolling.
\<close>

definition getPopupPos ::
  "page \<Rightarrow> tour \<Rightarrow> window \<Rightarrow> (error + (real \<times> real)) \<times> window" where
  "getPopupPos pg t w =
     (case currentElement t of
        None \<Rightarrow> (Inl TypeError, w)
      | Some el \<Rightarrow>
          let scrollTop = getTopOrBottom pg el;
              w1 = w\<lparr>scroll := scrollIntoView pg el scrollTop (scrollMargin (options t)) (scroll w)\<rparr>;
              docRect = bodyRect pg (scroll w1);
              r = elementRect pg (scroll w1) el
          in (case popupElement t of
                None \<Rightarrow> (Inl TypeError, w1)
              | Some popup \<Rightarrow>
                  let (pos, again) =
                        popupPos docRect r (getBoundingClientRect pg popup) (innerHeight pg)
                  in (Inr pos,
                      if again
                      then w1\<lparr>scroll := scrollIntoView pg el True (scrollMargin (options t)) (scroll w1)\<rparr>
                      else w1)))"

definition createPopup :: "tour \<Rightarrow> tour" where
  "createPopup t =
     t\<lparr>popupElement :=
         Some (createElement_div\<lparr>classList := [''tour-popup-container''], attached := True\<rparr>)\<rparr>"

definition movePopup :: "real \<times> real \<Rightarrow> tour \<Rightarrow> error + tour" where
  "movePopup coordinates t =
     (case popupElement t of
        None \<Rightarrow> Inl TypeError
      | Some popup \<Rightarrow>
          Inr (t\<lparr>popupElement :=
                   Some (popup\<lparr>style_left := Some (fst coordinates),
                               style_top := Some (snd coordinates)\<rparr>)\<rparr>))"

section \<open>Tour: window handlers\<close>

text \<open>
  \<^verbatim>\<open>window.pagexOffset\<close> does not exist, and \<^verbatim>\<open>pageYOffset\<close> equals \<^verbatim>\<open>scrollTop\<close>, so the
  lock remembers the current scroll position.
\<close>

definition toggleScroll :: "bool \<Rightarrow> window \<Rightarrow> window" where
  "toggleScroll canScroll w =
     (if canScroll then w\<lparr>onscroll := None\<rparr> else w\<lparr>onscroll := Some (scroll w)\<rparr>)"

definition setWindowResizeEvent :: "bool \<Rightarrow> window \<Rightarrow> window" where
  "setWindowResizeEvent shouldResize w = w\<lparr>onresize := shouldResize\<rparr>"

text \<open>\<^verbatim>\<open>observe(null)\<close> and \<^verbatim>\<open>unobserve(null)\<close> raise a TypeError.\<close>

definition toggleResizeObserver :: "bool \<Rightarrow> tour \<Rightarrow> error + tour" where
  "toggleResizeObserver shouldResize t =
     (case currentElement t of
        None \<Rightarrow> Inl TypeError
      | Some el \<Rightarrow>
          if shouldResize then Inr (t\<lparr>observed := List.insert el (observed t)\<rparr>)
          else Inr (t\<lparr>observed := removeAll el (observed t)\<rparr>))"

section \<open>Spotlight\<close>

definition overlay :: div_element where
  "overlay = createElement_div\<lparr>classList := [''tour-overlay''], attached := True\<rparr>"

function create_from :: "nat \<Rightarrow> Spotlight \<Rightarrow> Spotlight" where
  "create_from i s =
     (if i < 4
      then create_from (i + 1) (s\<lparr>spotlight_panels := spotlight_panels s @ [overlay]\<rparr>)
      else s)"
  by pat_completeness auto
termination
  by (relation "measure (\<lambda>(i, s). 4 - i)") auto

declare create_from.simps [simp del]

definition create :: "Spotlight \<Rightarrow> Spotlight" where
  "create s = create_from 0 s"

text \<open>The constructor; \<open>None\<close> is the omitted padding, which defaults to 0.\<close>

definition new_Spotlight :: "real option \<Rightarrow> Spotlight" where
  "new_Spotlight pad =
     create \<lparr>padding = (case pad of None \<Rightarrow> 0 | Some p \<Rightarrow> p), spotlight_panels = []\<rparr>"

text \<open>
  \<^verbatim>\<open>this.spotlight[i].style... = ...\<close>: a TypeError when the list has no entry \<open>i\<close>,
  after the assignments before it have been made.
\<close>

definition panel_update ::
  "nat \<Rightarrow> (div_element \<Rightarrow> div_element) \<Rightarrow> Spotlight \<Rightarrow> Spotlight outcome" where
  "panel_update i f s =
     (if i < length (spotlight_panels s)
      then Done (s\<lparr>spotlight_panels := (spotlight_panels s)[i := f (spotlight_panels s ! i)]\<rparr>)
      else Raised TypeError s)"

definition move :: "page \<Rightarrow> rect \<Rightarrow> Spotlight \<Rightarrow> Spotlight outcome" where
  "move pg r s =
     foldl and_then (Done s)
       [panel_update 0 (\<lambda>d. d\<lparr>style_top :=
            Some (rect_top r - padding s - rect_height (getBoundingClientRect pg d))\<rparr>),
        panel_update 1 (\<lambda>d. d\<lparr>style_left := Some (rect_right r + padding s)\<rparr>),
        panel_update 1 (\<lambda>d. d\<lparr>style_top := Some (rect_top r - padding s)\<rparr>),
        panel_update 2 (\<lambda>d. d\<lparr>style_top := Some (rect_bottom r + padding s)\<rparr>),
        panel_update 3 (\<lambda>d. d\<lparr>style_left :=
            Some (rect_left r - padding s - rect_width (getBoundingClientRect pg d))\<rparr>),
        panel_update 3 (\<lambda>d. d\<lparr>style_top := Some (rect_top r - padding s)\<rparr>),
        panel_update 3 (set_style_height (rect_height r + padding s * 2)),
        panel_update 1 (set_style_height (rect_height r + padding s * 2))]"

text \<open>
  In \<^verbatim>\<open>blackout\<close> the left panel gets \<^verbatim>\<open>"-" + width + "px"\<close>, a valid length only for
  a width that is not negative.
\<close>

definition blackout :: "page \<Rightarrow> Spotlight \<Rightarrow> Spotlight outcome" where
  "blackout pg s =
     foldl and_then (Done s)
       [panel_update 0 (\<lambda>d. d\<lparr>style_top := Some 0\<rparr>),
        panel_update 1 (\<lambda>d. d\<lparr>style_left := Some (rect_width (getBoundingClientRect pg d))\<rparr>),
        panel_update 2 (\<lambda>d. d\<lparr>style_top := Some (rect_height (getBoundingClientRect pg d))\<rparr>),
        panel_update 3 (\<lambda>d. if 0 \<le> rect_width (getBoundingClientRect pg d)
                              then d\<lparr>style_left := Some (- rect_width (getBoundingClientRect pg d))\<rparr>
                              else d)]"

definition kill :: "Spotlight \<Rightarrow> Spotlight" where
  "kill s =
     (if length (spotlight_panels s) \<noteq> 0
      then s\<lparr>spotlight_panels := map (\<lambda>el. el\<lparr>attached := False\<rparr>) (spotlight_panels s)\<rparr>
      else s)"

section \<open>Tour: steps and states\<close>

text \<open>The states: 0 configuration, 1 started, 2 finished.\<close>

definition Configuring :: int where "Configuring = 0"
definition Started :: int where "Started = 1"
definition Finished :: int where "Finished = 2"

text \<open>\<^verbatim>\<open>if(elementId)\<close>: an id that is undefined or empty is falsy.\<close>

definition truthy_id :: "string option \<Rightarrow> string option" where
  "truthy_id i = (case i of None \<Rightarrow> None | Some el \<Rightarrow> if el = [] then None else Some el)"

text \<open>
  The middle of \<^verbatim>\<open>makeStep\<close>: resolve the target and compute the coordinates, from the
  target or from the centre of the viewport.
\<close>

definition locate ::
  "page \<Rightarrow> tour_step \<Rightarrow> tour \<times> window \<Rightarrow> (error + (real \<times> real)) \<times> (tour \<times> window)" where
  "locate pg s tw =
     (case tw of (t, w) \<Rightarrow>
        (case truthy_id (step_id s) of
           Some elementId \<Rightarrow>
             let t1 = t\<lparr>currentElement :=
                          (if hasElement pg elementId then Some elementId else None)\<rparr>
             in (case toggleResizeObserver True t1 of
                   Inl e \<Rightarrow> (Inl e, (t1, w))
                 | Inr t2 \<Rightarrow>
                     (case getPopupPos pg t2 w of (res, w1) \<Rightarrow> (res, (t2, w1))))
         | None \<Rightarrow>
             let t1 = t\<lparr>currentElement := None\<rparr>
             in (getCenterPos pg t1, (t1, w))))"

text \<open>The spotlight part of \<^verbatim>\<open>makeStep\<close>: a tour without a Spotlight object raises.\<close>

definition moveSpotlight :: "page \<Rightarrow> tour \<times> window \<Rightarrow> (tour \<times> window) outcome" where
  "moveSpotlight pg tw =
     (case tw of (t, w) \<Rightarrow>
        if spotlight_opt (options t) then
          (case spotlight t of
             None \<Rightarrow> Raised TypeError (t, w)
           | Some sp \<Rightarrow>
               (case (case currentElement t of
                        Some el \<Rightarrow> move pg (elementRect pg (scroll w) el) sp
                      | None \<Rightarrow> blackout pg sp) of
                  Done sp' \<Rightarrow> Done (t\<lparr>spotlight := Some sp'\<rparr>, w)
                | Raised e sp' \<Rightarrow> Raised e (t\<lparr>spotlight := Some sp'\<rparr>, w)))
        else Done (t, w))"

definition makeStep :: "page \<Rightarrow> tour \<times> window \<Rightarrow> (tour \<times> window) outcome" where
  "makeStep pg tw =
     (case tw of (t, w) \<Rightarrow>
        (case stepAt (steps t) (step t) of
           None \<Rightarrow> Raised TypeError (t, w)
         | Some s \<Rightarrow>
             (case updatePopup t of
                Inl e \<Rightarrow> Raised e (t, w)
              | Inr t1 \<Rightarrow>
                  (case locate pg s (t1, w) of
                     (Inl e, tw2) \<Rightarrow> Raised e tw2
                   | (Inr coordinates, (t2, w2)) \<Rightarrow>
                       (case movePopup coordinates t2 of
                          Inl e \<Rightarrow> Raised e (t2, w2)
                        | Inr t3 \<Rightarrow>
                            and_then (moveSpotlight pg (t3, w2))
                              (\<lambda>(t4, w4).
                                 Done (t4, if disableScroll (options t4)
                                           then toggleScroll False w4 else w4)))))))"

definition endTour :: "tour \<times> window \<Rightarrow> (tour \<times> window) outcome" where
  "endTour tw =
     (case tw of (t, w) \<Rightarrow>
        let t1 = t\<lparr>currentState := 2\<rparr> in
        (case popupElement t1 of
           None \<Rightarrow> Raised TypeError (t1, w)
         | Some popup \<Rightarrow>
             let t2 = t1\<lparr>popupElement := Some (popup\<lparr>attached := False\<rparr>)\<rparr>;
                 w1 = setWindowResizeEvent False w
             in if spotlight_opt (options t2) then
                  (case spotlight t2 of
                     None \<Rightarrow> Raised TypeError (t2, w1)
                   | Some sp \<Rightarrow> Done (t2\<lparr>spotlight := Some (kill sp)\<rparr>, toggleScroll True w1))
                else Done (t2, toggleScroll True w1)))"

definition start :: "page \<Rightarrow> tour \<times> window \<Rightarrow> (tour \<times> window) outcome" where
  "start pg tw =
     (case tw of (t, w) \<Rightarrow>
        if currentState t \<noteq> 1 then
          let t1 = t\<lparr>currentState := 1\<rparr>;
              w1 = setWindowResizeEvent True w;
              t2 = createPopup t1;
              t3 = (if spotlight_opt (options t2)
                    then t2\<lparr>spotlight := Some (new_Spotlight (Some 10))\<rparr> else t2)
          in makeStep pg (t3, w1)
        else Done (t, w\<lparr>console := console w @ [Warn ''The Tour has already started.'']\<rparr>))"

text \<open>Arithmetic and comparison on the step index; \<^verbatim>\<open>NaN\<close> absorbs and compares false.\<close>

definition num_add :: "jsnum \<Rightarrow> int \<Rightarrow> jsnum" where
  "num_add n k = (case n of NaN \<Rightarrow> NaN | Num i \<Rightarrow> Num (i + k))"

definition num_less :: "jsnum \<Rightarrow> int \<Rightarrow> bool" where
  "num_less n k = (case n of NaN \<Rightarrow> False | Num i \<Rightarrow> i < k)"

text \<open>\<^verbatim>\<open>if(this.currentElement) this.toggleResizeObserver(false)\<close>\<close>

definition unobserveCurrent :: "tour \<Rightarrow> tour" where
  "unobserveCurrent t =
     (case currentElement t of
        None \<Rightarrow> t
      | Some el \<Rightarrow> (case toggleResizeObserver False t of Inl e \<Rightarrow> t | Inr t' \<Rightarrow> t'))"

definition "next" :: "page \<Rightarrow> tour \<times> window \<Rightarrow> (tour \<times> window) outcome" where
  "next pg tw =
     (case tw of (t, w) \<Rightarrow>
        let t1 = unobserveCurrent (t\<lparr>step := num_add (step t) 1\<rparr>)
        in if num_less (step t1) (int (length (steps t1)))
           then makeStep pg (t1, w)
           else endTour (t1, w))"

definition previous :: "page \<Rightarrow> tour \<times> window \<Rightarrow> (tour \<times> window) outcome" where
  "previous pg tw =
     (case tw of (t, w) \<Rightarrow>
        makeStep pg (unobserveCurrent (t\<lparr>step := num_add (step t) (- 1)\<rparr>), w))"

section \<open>Tour: persistence\<close>

subsection \<open>\<^verbatim>\<open>toString\<close> and \<^verbatim>\<open>parseInt\<close>\<close>

function show_nat :: "nat \<Rightarrow> string" where
  "show_nat n =
     (if n < 10 then [char_of (48 + n)]
      else show_nat (n div 10) @ [char_of (48 + n mod 10)])"
  by pat_completeness auto
termination
  by (relation "measure (\<lambda>n. n)") auto

declare show_nat.simps [simp del]

definition toString :: "jsnum \<Rightarrow> string" where
  "toString n =
     (case n of
        NaN \<Rightarrow> ''NaN''
      | Num i \<Rightarrow> if i < 0 then CHR ''-'' # show_nat (nat (- i)) else show_nat (nat i))"

definition is_space :: "char \<Rightarrow> bool" where
  "is_space c = (c \<in> set [CHR '' '', CHR 0x09, CHR 0x0A, CHR 0x0B, CHR 0x0C, CHR 0x0D])"

text \<open>The value of a character as a digit of the radix, if it is one.\<close>

definition digit_of :: "nat \<Rightarrow> char \<Rightarrow> nat option" where
  "digit_of radix c =
     (let n = (of_char c :: nat);
          v = (if 48 \<le> n \<and> n \<le> 57 then Some (n - 48)
               else if 97 \<le> n \<and> n \<le> 122 then Some (n - 87)
               else if 65 \<le> n \<and> n \<le> 90 then Some (n - 55)
               else None)
      in case v of None \<Rightarrow> None | Some d \<Rightarrow> if d < radix then Some d else None)"

fun leading_digits :: "nat \<Rightarrow> string \<Rightarrow> nat list" where
  "leading_digits radix [] = []"
| "leading_digits radix (c # cs) =
     (case digit_of radix c of None \<Rightarrow> [] | Some d \<Rightarrow> d # leading_digits radix cs)"

text \<open>
  \<^verbatim>\<open>parseInt(string)\<close> without a radix: leading white space, a sign, \<^verbatim>\<open>0x\<close> for
  radix 16, then the longest run of digits; \<^verbatim>\<open>NaN\<close> when there is none. The model is
  that of integers in the range doubles hold exactly (below \<open>2^53\<close>, where \<^verbatim>\<open>toString\<close>
  prints every digit and \<^verbatim>\<open>parseInt\<close> does not round), and of the white space of ASCII.
\<close>

definition parseInt :: "string \<Rightarrow> jsnum" where
  "parseInt str =
     (let s0 = dropWhile is_space str;
          neg = (case s0 of [] \<Rightarrow> False | c # cs \<Rightarrow> c = CHR ''-'');
          s1 = (case s0 of [] \<Rightarrow> []
                | c # cs \<Rightarrow> if c = CHR ''-'' \<or> c = CHR ''+'' then cs else s0);
          hex = (prefix ''0x'' s1 \<or> prefix ''0X'' s1);
          radix = (if hex then 16 else 10);
          s2 = (if hex then drop 2 s1 else s1);
          ds = leading_digits radix s2
      in if ds = [] then NaN
         else Num ((if neg then - 1 else 1) * int (foldl (\<lambda>acc d. acc * radix + d) 0 ds)))"

subsection \<open>\<^verbatim>\<open>save\<close> and \<^verbatim>\<open>getSavedTour\<close>\<close>

definition save :: "tour \<Rightarrow> window \<Rightarrow> window" where
  "save t w =
     w\<lparr>sessionStorage := (sessionStorage w)
         (''Tour.js'' \<mapsto>
            \<lparr>saved_currentState = toString (Num (currentState t)),
             saved_steps = steps t,
             saved_step = toString (step t),
             saved_options = options t,
             saved_textVariables = textVariables t\<rparr>)\<rparr>"

text \<open>
  \<^verbatim>\<open>sessionStorage.getItem\<close> of a key that is not there gives \<^verbatim>\<open>null\<close>, which
  \<^verbatim>\<open>JSON.parse\<close> hands back; reading \<^verbatim>\<open>tour.steps\<close> then raises. The saved object has no
  \<^verbatim>\<open>spotlight\<close>, so the new tour's is undefined.
\<close>

definition getSavedTour :: "string \<Rightarrow> window \<Rightarrow> error + tour" where
  "getSavedTour name w =
     (case sessionStorage w ''tour'' of
        None \<Rightarrow> Inl TypeError
      | Some sv \<Rightarrow>
          let newTour = new_Tour name (saved_steps sv) (Some (parseInt (saved_step sv)));
              newTour1 = newTour\<lparr>spotlight := None\<rparr>;
              newTour2 = setTextVariables (saved_textVariables sv) newTour1
          in Inr (setOptions
                    (Some \<lparr>arg_disableScroll = Some (disableScroll (saved_options sv)),
                           arg_spotlight = Some (spotlight_opt (saved_options sv)),
                           arg_language = Some (language (saved_options sv)),
                           arg_scrollMargin = Some (scrollMargin (saved_options sv))\<rparr>)
                    newTour2))"

section \<open>Notions used to state the properties\<close>

text \<open>A rectangle covers the points from its left and top edge up to, not including, its
  right and bottom edge; the viewport is the rectangle of the window at the origin.\<close>

definition covers :: "rect \<Rightarrow> real \<times> real \<Rightarrow> bool" where
  "covers r pt =
     (rect_left r \<le> fst pt \<and> fst pt < rect_right r
      \<and> rect_top r \<le> snd pt \<and> snd pt < rect_bottom r)"

definition in_viewport :: "page \<Rightarrow> real \<times> real \<Rightarrow> bool" where
  "in_viewport pg pt =
     (0 \<le> fst pt \<and> fst pt < innerWidth pg \<and> 0 \<le> snd pt \<and> snd pt < innerHeight pg)"

text \<open>The target rectangle grown by the padding on each side.\<close>

definition expand :: "real \<Rightarrow> rect \<Rightarrow> rect" where
  "expand p r =
     \<lparr>rect_left = rect_left r - p, rect_top = rect_top r - p,
      rect_width = rect_width r + 2 * p, rect_height = rect_height r + 2 * p\<rparr>"

text \<open>The rectangle of panel \<open>i\<close> (0 top, 1 right, 2 bottom, 3 left).\<close>

definition panel_rect :: "page \<Rightarrow> Spotlight \<Rightarrow> nat \<Rightarrow> rect" where
  "panel_rect pg s i = getBoundingClientRect pg (spotlight_panels s ! i)"

definition masked :: "page \<Rightarrow> Spotlight \<Rightarrow> real \<times> real \<Rightarrow> bool" where
  "masked pg s pt = list_ex (\<lambda>d. covers (getBoundingClientRect pg d) pt) (spotlight_panels s)"

text \<open>The box the stylesheet gives an overlay panel.\<close>

definition overlayBox :: "page \<Rightarrow> rect" where
  "overlayBox pg = cssBox pg [''tour-overlay''] []"

text \<open>
  The Spotlights the class produces: four attached overlay panels, of which the top and the
  bottom one have no inline \<^verbatim>\<open>left\<close> or \<^verbatim>\<open>height\<close> (no method sets them).
\<close>

definition created :: "Spotlight \<Rightarrow> bool" where
  "created s =
     (length (spotlight_panels s) = 4
      \<and> list_all (\<lambda>d. attached d \<and> classList d = [''tour-overlay''] \<and> innerHTML d = [])
            (spotlight_panels s)
      \<and> style_left (spotlight_panels s ! 0) = None
      \<and> style_height (spotlight_panels s ! 0) = None
      \<and> style_left (spotlight_panels s ! 2) = None
      \<and> style_height (spotlight_panels s ! 2) = None)"

text \<open>The fields of a tour that rendering a step leaves alone.\<close>

definition same_config :: "tour \<Rightarrow> tour \<Rightarrow> bool" where
  "same_config t t' =
     (varName t' = varName t \<and> steps t' = steps t \<and> step t' = step t
      \<and> currentState t' = currentState t \<and> textVariables t' = textVariables t
      \<and> options t' = options t)"

text \<open>The state after \<^verbatim>\<open>start()\<close> and then \<open>k\<close> calls of \<^verbatim>\<open>next()\<close>, each call made
  whether or not the one before raised.\<close>

definition after_nexts :: "page \<Rightarrow> nat \<Rightarrow> tour \<times> window \<Rightarrow> tour \<times> window" where
  "after_nexts pg k tw = ((\<lambda>s. state_of (next pg s)) ^^ k) (state_of (start pg tw))"

text \<open>The started tour shows step \<open>k\<close> of \<open>t0\<close> in its popup.\<close>

definition shows_step :: "tour \<Rightarrow> nat \<Rightarrow> tour \<Rightarrow> bool" where
  "shows_step t0 k t =
     (same_config (t0\<lparr>currentState := 1, step := Num (int k)\<rparr>) t
      \<and> (\<exists>p. popupElement t = Some p \<and> attached p
            \<and> innerHTML p = popupHtml (t0\<lparr>step := Num (int k)\<rparr>) (steps t0 ! k)))"

text \<open>The target of a step, if it names one, is an element of the page.\<close>

definition resolvable :: "page \<Rightarrow> tour_step \<Rightarrow> bool" where
  "resolvable pg s =
     (case truthy_id (step_id s) of None \<Rightarrow> True | Some el \<Rightarrow> hasElement pg el)"

text \<open>A tour whose spotlight option is on holds a Spotlight with its four panels.\<close>

definition ready :: "tour \<Rightarrow> bool" where
  "ready t =
     (if spotlight_opt (options t)
      then (case spotlight t of None \<Rightarrow> False | Some sp \<Rightarrow> length (spotlight_panels sp) = 4)
      else True)"

subsection \<open>A page and a tour to evaluate on\<close>

text \<open>
  A window of 800 by 600 on a document of 800 by 2000 with two targets; overlay panels the
  size of the viewport at its origin, a popup of 300 by 120; scrolling is not needed.
\<close>

definition page0 :: page where
  "page0 =
     \<lparr>hasElement = (\<lambda>i. i = ''a'' \<or> i = ''b''),
      elementRect = (\<lambda>v i. if i = ''a''
          then \<lparr>rect_left = 100, rect_top = 100, rect_width = 200, rect_height = 50\<rparr>
          else \<lparr>rect_left = 500, rect_top = 300, rect_width = 100, rect_height = 40\<rparr>),
      elementOffsetTop = (\<lambda>i. if i = ''a'' then 100 else 300),
      bodyRect = (\<lambda>v. \<lparr>rect_left = 0, rect_top = 0, rect_width = 800, rect_height = 2000\<rparr>),
      bodyOffsetHeight = 2000,
      innerWidth = 800,
      innerHeight = 600,
      cssBox = (\<lambda>cl html. if cl = [''tour-overlay'']
          then \<lparr>rect_left = 0, rect_top = 0, rect_width = 800, rect_height = 600\<rparr>
          else \<lparr>rect_left = 0, rect_top = 0, rect_width = 300, rect_height = 120\<rparr>),
      scrollIntoView = (\<lambda>el alignToTop margin v. v)\<rparr>"

definition window0 :: window where
  "window0 =
     \<lparr>scroll = (0, 0), onresize = False, onscroll = None, console = [],
      sessionStorage = Map.empty\<rparr>"

definition tour0 :: tour where
  "tour0 =
     setTextVariables [(''n'', ''Sam'')]
       (new_Tour ''tour''
          [\<lparr>step_id = Some ''a'', step_text = ''Hi PLACEHOLDER-n'', step_img = None\<rparr>,
           \<lparr>step_id = Some ''b'', step_text = ''Bye'', step_img = None\<rparr>]
          None)"

text \<open>The rectangle of the first target, and a target below the viewport.\<close>

definition rect_a :: rect where
  "rect_a = \<lparr>rect_left = 100, rect_top = 100, rect_width = 200, rect_height = 50\<rparr>"

definition rect_below :: rect where
  "rect_below = \<lparr>rect_left = 100, rect_top = 700, rect_width = 200, rect_height = 50\<rparr>"

text \<open>A tour of one step.\<close>

definition tour1 :: tour where
  "tour1 =
     new_Tour ''tour'' [\<lparr>step_id = Some ''a'', step_text = ''Hi'', step_img = None\<rparr>] None"

text \<open>
  A page with one target rectangle and one box for the popup, on which every call of
  \<^verbatim>\<open>scrollIntoView\<close> moves the scroll position, and a tour with a popup whose current
  element is the first target.
\<close>

definition page_with :: "rect \<Rightarrow> rect \<Rightarrow> page" where
  "page_with targetRect popupBox =
     page0\<lparr>elementRect := (\<lambda>v i. targetRect),
           cssBox := (\<lambda>cl html. popupBox),
           scrollIntoView := (\<lambda>el alignToTop margin v.
              (fst v, snd v + (if alignToTop then 1 else 2)))\<rparr>"

definition tour3 :: tour where
  "tour3 = (createPopup tour0)\<lparr>currentElement := Some ''a''\<rparr>"

text \<open>A tour whose only step names no target, with its popup and its Spotlight created.\<close>

definition tour2 :: tour where
  "tour2 =
     (createPopup
        (new_Tour ''tour'' [\<lparr>step_id = None, step_text = ''Welcome'', step_img = None\<rparr>] None))
       \<lparr>spotlight := Some (new_Spotlight (Some 10))\<rparr>"

section \<open>Properties of the options and of the centred popup\<close>

text \<open>
  C7. In centered mode the popup is centred in the viewport: for every popup and every
  viewport size, \<open>getCenterPos\<close> returns \<open>x = (viewportWidth - popupWidth) / 2\<close> and
  \<open>y = (viewportHeight - popupHeight) / 2\<close>, so that \<open>x + popupWidth / 2 = viewportWidth / 2\<close>
  and \<open>y + popupHeight / 2 = viewportHeight / 2\<close>.
\<close>

theorem getCenterPos_centered:
  "getCenterPos pg (t\<lparr>popupElement := Some popup\<rparr>) =
     Inr ((innerWidth pg - rect_width (getBoundingClientRect pg popup)) / 2,
          (innerHeight pg - rect_height (getBoundingClientRect pg popup)) / 2)
   \<and> (innerWidth pg - rect_width (getBoundingClientRect pg popup)) / 2
       + rect_width (getBoundingClientRect pg popup) / 2 = innerWidth pg / 2
   \<and> (innerHeight pg - rect_height (getBoundingClientRect pg popup)) / 2
       + rect_height (getBoundingClientRect pg popup) / 2 = innerHeight pg / 2"
  by (simp add: getCenterPos_def Let_def field_simps)

text \<open>
  C10. \<open>setOptions\<close> resets every option that its argument leaves out to the default
  (\<open>disableScroll = true\<close>, \<open>spotlight = true\<close>, \<open>language = "en"\<close>, \<open>scrollMargin = 50\<close>),
  whatever the option was before, and takes the others from the argument; so
  \<open>setOptions({language: "fr"})\<close> on a tour whose \<open>disableScroll\<close> was \<open>false\<close> sets it back
  to \<open>true\<close>.
\<close>

theorem setOptions_resets_absent:
  "disableScroll (options (setOptions (Some a) t)) =
     (case arg_disableScroll a of None \<Rightarrow> True | Some b \<Rightarrow> b)
   \<and> spotlight_opt (options (setOptions (Some a) t)) =
     (case arg_spotlight a of None \<Rightarrow> True | Some b \<Rightarrow> b)
   \<and> language (options (setOptions (Some a) t)) =
     (case arg_language a of None \<Rightarrow> ''en'' | Some l \<Rightarrow> l)
   \<and> scrollMargin (options (setOptions (Some a) t)) =
     (case arg_scrollMargin a of None \<Rightarrow> 50 | Some m \<Rightarrow> m)
   \<and> disableScroll (options (setOptions
        (Some \<lparr>arg_disableScroll = None, arg_spotlight = None,
               arg_language = Some ''fr'', arg_scrollMargin = None\<rparr>)
        (t\<lparr>options := (options t)\<lparr>disableScroll := False\<rparr>\<rparr>))) = True"
  by (simp add: setOptions_def)

section \<open>Placeholder substitution\<close>

lemma getSubstitution_plain:
  "CHR ''$'' \<notin> set v \<Longrightarrow> getSubstitution m front rest v = v"
  by (induction m front rest v rule: getSubstitution.induct) auto

lemma split_first_None: "split_first pat str = None \<longleftrightarrow> \<not> sublist pat str"
proof (induction str)
  case Nil
  then show ?case by auto
next
  case (Cons c cs)
  then show ?case
    by (auto simp: sublist_Cons_right)
qed

lemma split_first_first:
  assumes "pat \<noteq> []" "\<not> sublist pat (pre @ butlast pat)"
  shows "split_first pat (pre @ pat @ post) = Some (pre, post)"
  using assms
proof (induction pre)
  case Nil
  then show ?case by (cases pat) auto
next
  case (Cons c cs)
  have "\<not> prefix pat (c # cs @ pat @ post)"
  proof
    assume p: "prefix pat (c # cs @ pat @ post)"
    have "prefix pat ((c # cs @ butlast pat) @ (last pat # post))"
      using p Cons.prems(1) by (metis append.assoc append_Cons append_butlast_last_id append_Nil)
    moreover have "length pat \<le> length (c # cs @ butlast pat)" by simp
    ultimately have "prefix pat (c # cs @ butlast pat)"
      by (metis prefix_length_prefix prefixI)
    then have "sublist pat ((c # cs) @ butlast pat)" by (simp add: prefix_imp_sublist)
    with Cons.prems(2) show False by simp
  qed
  moreover have "\<not> sublist pat (cs @ butlast pat)"
    using Cons.prems(2) by (auto simp: sublist_Cons_right)
  ultimately show ?case using Cons.IH Cons.prems(1) by simp
qed

lemma replace_absent: "\<not> sublist pat str \<Longrightarrow> replace str pat v = str"
  using split_first_None [of pat str] by (simp add: replace_def)

lemma replace_first:
  assumes "pat \<noteq> []" "\<not> sublist pat (pre @ butlast pat)" "CHR ''$'' \<notin> set v"
  shows "replace (pre @ pat @ post) pat v = pre @ v @ post"
  using assms by (simp add: replace_def split_first_first getSubstitution_plain)

lemma formatText_absent:
  "\<forall>k \<in> fst ` set variables. \<not> sublist (''PLACEHOLDER-'' @ k) str
   \<Longrightarrow> formatText variables str = str"
  unfolding formatText_def
  by (induction variables) (auto simp: replace_absent)

lemma formatText_single:
  "formatText [(k, v)] str = replace str (''PLACEHOLDER-'' @ k) v"
  by (simp add: formatText_def)

text \<open>
  C2. Rendering is to replace every occurrence of \<open>PLACEHOLDER-X\<close> by the value of \<open>X\<close>.
  The code does not: with the variable \<open>X\<close> set to \<open>v\<close>, the text
  \<open>PLACEHOLDER-X and PLACEHOLDER-X\<close> is rendered as \<open>v and PLACEHOLDER-X\<close>, not as
  \<open>v and v\<close>. \<^verbatim>\<open>replace\<close> with a string pattern stops after the first occurrence.
\<close>

theorem formatText_replaces_first_only:
  "formatText [(''X'', ''v'')] ''PLACEHOLDER-X and PLACEHOLDER-X'' = ''v and PLACEHOLDER-X''
   \<and> formatText [(''X'', ''v'')] ''PLACEHOLDER-X and PLACEHOLDER-X'' \<noteq> ''v and v''"
  by (simp add: formatText_def replace_def)

section \<open>Spotlight geometry\<close>

lemma created_panels:
  assumes "created s"
  obtains d0 d1 d2 d3 where "spotlight_panels s = [d0, d1, d2, d3]"
    and "\<forall>d \<in> {d0, d1, d2, d3}. attached d \<and> classList d = [''tour-overlay''] \<and> innerHTML d = []"
    and "style_left d0 = None" "style_height d0 = None"
    and "style_left d2 = None" "style_height d2 = None"
proof -
  from assms have len: "length (spotlight_panels s) = 4" by (simp add: created_def)
  then obtain d0 d1 d2 d3 where l: "spotlight_panels s = [d0, d1, d2, d3]"
    by (auto simp: length_Suc_conv numeral_eq_Suc)
  show ?thesis
    using assms l by (intro that [of d0 d1 d2 d3]) (auto simp: created_def)
qed

lemma move_rects:
  assumes "created s" and "0 \<le> rect_height r + padding s * 2"
  shows "\<exists>d0 d1 d2 d3. move pg r s = Done (s\<lparr>spotlight_panels := [d0, d1, d2, d3]\<rparr>)
     \<and> created (s\<lparr>spotlight_panels := [d0, d1, d2, d3]\<rparr>)
     \<and> getBoundingClientRect pg d0 =
         \<lparr>rect_left = rect_left (overlayBox pg),
          rect_top = rect_top r - padding s - rect_height (overlayBox pg),
          rect_width = rect_width (overlayBox pg), rect_height = rect_height (overlayBox pg)\<rparr>
     \<and> getBoundingClientRect pg d1 =
         \<lparr>rect_left = rect_right r + padding s, rect_top = rect_top r - padding s,
          rect_width = rect_width (overlayBox pg), rect_height = rect_height r + padding s * 2\<rparr>
     \<and> getBoundingClientRect pg d2 =
         \<lparr>rect_left = rect_left (overlayBox pg), rect_top = rect_bottom r + padding s,
          rect_width = rect_width (overlayBox pg), rect_height = rect_height (overlayBox pg)\<rparr>
     \<and> getBoundingClientRect pg d3 =
         \<lparr>rect_left = rect_left r - padding s - rect_width (overlayBox pg),
          rect_top = rect_top r - padding s,
          rect_width = rect_width (overlayBox pg), rect_height = rect_height r + padding s * 2\<rparr>"
proof -
  from assms(1) obtain d0 d1 d2 d3 where l: "spotlight_panels s = [d0, d1, d2, d3]"
    and a: "\<forall>d \<in> {d0, d1, d2, d3}. attached d \<and> classList d = [''tour-overlay''] \<and> innerHTML d = []"
    and n: "style_left d0 = None" "style_height d0 = None"
      "style_left d2 = None" "style_height d2 = None"
    by (rule created_panels)
  let ?e0 = "d0\<lparr>style_top := Some (rect_top r - padding s - rect_height (overlayBox pg))\<rparr>"
  let ?e1 = "d1\<lparr>style_left := Some (rect_right r + padding s),
                style_top := Some (rect_top r - padding s),
                style_height := Some (rect_height r + padding s * 2)\<rparr>"
  let ?e2 = "d2\<lparr>style_top := Some (rect_bottom r + padding s)\<rparr>"
  let ?e3 = "d3\<lparr>style_left := Some (rect_left r - padding s - rect_width (overlayBox pg)),
                style_top := Some (rect_top r - padding s),
                style_height := Some (rect_height r + padding s * 2)\<rparr>"
  have mv: "move pg r s = Done (s\<lparr>spotlight_panels := [?e0, ?e1, ?e2, ?e3]\<rparr>)"
    using l a n assms(2)
    by (simp add: move_def panel_update_def set_style_height_def
        getBoundingClientRect_def overlayBox_def Let_def)
  have props: "created (s\<lparr>spotlight_panels := [?e0, ?e1, ?e2, ?e3]\<rparr>)
     \<and> getBoundingClientRect pg ?e0 =
         \<lparr>rect_left = rect_left (overlayBox pg),
          rect_top = rect_top r - padding s - rect_height (overlayBox pg),
          rect_width = rect_width (overlayBox pg), rect_height = rect_height (overlayBox pg)\<rparr>
     \<and> getBoundingClientRect pg ?e1 =
         \<lparr>rect_left = rect_right r + padding s, rect_top = rect_top r - padding s,
          rect_width = rect_width (overlayBox pg), rect_height = rect_height r + padding s * 2\<rparr>
     \<and> getBoundingClientRect pg ?e2 =
         \<lparr>rect_left = rect_left (overlayBox pg), rect_top = rect_bottom r + padding s,
          rect_width = rect_width (overlayBox pg), rect_height = rect_height (overlayBox pg)\<rparr>
     \<and> getBoundingClientRect pg ?e3 =
         \<lparr>rect_left = rect_left r - padding s - rect_width (overlayBox pg),
          rect_top = rect_top r - padding s,
          rect_width = rect_width (overlayBox pg), rect_height = rect_height r + padding s * 2\<rparr>"
    using a n
    by (simp add: created_def getBoundingClientRect_def overlayBox_def Let_def)
  from mv props show ?thesis by blast
qed

lemma blackout_rects:
  assumes "created s" and "0 \<le> rect_width (overlayBox pg)"
  shows "\<exists>d0 d1 d2 d3. blackout pg s = Done (s\<lparr>spotlight_panels := [d0, d1, d2, d3]\<rparr>)
     \<and> created (s\<lparr>spotlight_panels := [d0, d1, d2, d3]\<rparr>)
     \<and> rect_left (getBoundingClientRect pg d0) = rect_left (overlayBox pg)
     \<and> rect_top (getBoundingClientRect pg d0) = 0
     \<and> rect_width (getBoundingClientRect pg d0) = rect_width (overlayBox pg)
     \<and> rect_height (getBoundingClientRect pg d0) = rect_height (overlayBox pg)
     \<and> rect_left (getBoundingClientRect pg d1) = rect_width (overlayBox pg)
     \<and> rect_top (getBoundingClientRect pg d2) = rect_height (overlayBox pg)
     \<and> rect_right (getBoundingClientRect pg d3) = 0"
proof -
  from assms(1) obtain d0 d1 d2 d3 where l: "spotlight_panels s = [d0, d1, d2, d3]"
    and a: "\<forall>d \<in> {d0, d1, d2, d3}. attached d \<and> classList d = [''tour-overlay''] \<and> innerHTML d = []"
    and n: "style_left d0 = None" "style_height d0 = None"
      "style_left d2 = None" "style_height d2 = None"
    by (rule created_panels)
  let ?e0 = "d0\<lparr>style_top := Some 0\<rparr>"
  let ?e1 = "d1\<lparr>style_left := Some (rect_width (overlayBox pg))\<rparr>"
  let ?e2 = "d2\<lparr>style_top := Some (rect_height (overlayBox pg))\<rparr>"
  let ?e3 = "d3\<lparr>style_left := Some (- rect_width (overlayBox pg))\<rparr>"
  have bl: "blackout pg s = Done (s\<lparr>spotlight_panels := [?e0, ?e1, ?e2, ?e3]\<rparr>)"
    using l a n assms(2)
    by (simp add: blackout_def panel_update_def
        getBoundingClientRect_def overlayBox_def Let_def)
  have props: "created (s\<lparr>spotlight_panels := [?e0, ?e1, ?e2, ?e3]\<rparr>)
     \<and> rect_left (getBoundingClientRect pg ?e0) = rect_left (overlayBox pg)
     \<and> rect_top (getBoundingClientRect pg ?e0) = 0
     \<and> rect_width (getBoundingClientRect pg ?e0) = rect_width (overlayBox pg)
     \<and> rect_height (getBoundingClientRect pg ?e0) = rect_height (overlayBox pg)
     \<and> rect_left (getBoundingClientRect pg ?e1) = rect_width (overlayBox pg)
     \<and> rect_top (getBoundingClientRect pg ?e2) = rect_height (overlayBox pg)
     \<and> rect_right (getBoundingClientRect pg ?e3) = 0"
    using a n
    by (simp add: created_def getBoundingClientRect_def overlayBox_def Let_def rect_right_def)
  from bl props show ?thesis by blast
qed

lemma new_Spotlight_panels:
  "spotlight_panels (new_Spotlight pad) = [overlay, overlay, overlay, overlay]"
  by (simp add: new_Spotlight_def create_def create_from.simps)

lemma new_Spotlight_padding:
  "padding (new_Spotlight pad) = (case pad of None \<Rightarrow> 0 | Some p \<Rightarrow> p)"
  by (simp add: new_Spotlight_def create_def create_from.simps)

lemma new_Spotlight_created: "created (new_Spotlight pad)"
  by (simp add: created_def new_Spotlight_panels overlay_def createElement_div_def)

lemma pairs_below_four:
  "i < j \<Longrightarrow> j < (4::nat) \<Longrightarrow>
   (i = 0 \<and> j = 1) \<or> (i = 0 \<and> j = 2) \<or> (i = 0 \<and> j = 3)
   \<or> (i = 1 \<and> j = 2) \<or> (i = 1 \<and> j = 3) \<or> (i = 2 \<and> j = 3)"
  by arith

text \<open>
  C5, amended. For every Spotlight of the class (four attached overlay panels), every
  padding \<open>p \<ge> 0\<close> and every target rectangle \<open>R\<close> (of a width and height that are not
  negative), \<open>move\<close> returns and leaves the panels with these edges: the top panel's bottom
  edge is \<open>R.top - p\<close>, the bottom panel's top edge is \<open>R.bottom + p\<close>, the right panel
  starts at the left edge \<open>R.right + p\<close> with top \<open>R.top - p\<close> and height \<open>R.height + 2p\<close>,
  the left panel ends at the right edge \<open>R.left - p\<close> with the same top and height, and the
  top and bottom panels keep the left edge and the width of the stylesheet. The regions of
  the four panels are pairwise disjoint. Their union is the viewport minus \<open>R\<close> expanded by
  \<open>p\<close> when the stylesheet makes a panel span the viewport (left edge at most 0, right
  edge and height at least the viewport's) and the expanded target meets the viewport.
\<close>

theorem move_panels_cover:
  assumes "created s" and "0 \<le> padding s" and "0 \<le> rect_width r" and "0 \<le> rect_height r"
  shows "\<exists>s'. move pg r s = Done s'
     \<and> rect_bottom (panel_rect pg s' 0) = rect_top r - padding s
     \<and> rect_top (panel_rect pg s' 2) = rect_bottom r + padding s
     \<and> rect_left (panel_rect pg s' 1) = rect_right r + padding s
     \<and> rect_top (panel_rect pg s' 1) = rect_top r - padding s
     \<and> rect_height (panel_rect pg s' 1) = rect_height r + 2 * padding s
     \<and> rect_right (panel_rect pg s' 3) = rect_left r - padding s
     \<and> rect_top (panel_rect pg s' 3) = rect_top r - padding s
     \<and> rect_height (panel_rect pg s' 3) = rect_height r + 2 * padding s
     \<and> rect_left (panel_rect pg s' 0) = rect_left (overlayBox pg)
     \<and> rect_width (panel_rect pg s' 0) = rect_width (overlayBox pg)
     \<and> rect_left (panel_rect pg s' 2) = rect_left (overlayBox pg)
     \<and> rect_width (panel_rect pg s' 2) = rect_width (overlayBox pg)
     \<and> (\<forall>pt i j. i < j \<and> j < 4 \<longrightarrow>
           \<not> (covers (panel_rect pg s' i) pt \<and> covers (panel_rect pg s' j) pt))
     \<and> (rect_left (overlayBox pg) \<le> 0 \<and> innerWidth pg \<le> rect_right (overlayBox pg)
         \<and> innerHeight pg \<le> rect_height (overlayBox pg)
         \<and> rect_top r - padding s \<le> innerHeight pg \<and> 0 \<le> rect_bottom r + padding s
         \<and> rect_left r - padding s \<le> innerWidth pg \<and> 0 \<le> rect_right r + padding s
         \<longrightarrow> (\<forall>pt. in_viewport pg pt \<longrightarrow>
                (masked pg s' pt \<longleftrightarrow> \<not> covers (expand (padding s) r) pt)))"
proof -
  have h: "0 \<le> rect_height r + padding s * 2" using assms(2,4) by simp
  from move_rects [OF assms(1) h, of pg]
  obtain d0 d1 d2 d3 where mv: "move pg r s = Done (s\<lparr>spotlight_panels := [d0, d1, d2, d3]\<rparr>)"
    and r0: "getBoundingClientRect pg d0 =
         \<lparr>rect_left = rect_left (overlayBox pg),
          rect_top = rect_top r - padding s - rect_height (overlayBox pg),
          rect_width = rect_width (overlayBox pg), rect_height = rect_height (overlayBox pg)\<rparr>"
    and r1: "getBoundingClientRect pg d1 =
         \<lparr>rect_left = rect_right r + padding s, rect_top = rect_top r - padding s,
          rect_width = rect_width (overlayBox pg), rect_height = rect_height r + padding s * 2\<rparr>"
    and r2: "getBoundingClientRect pg d2 =
         \<lparr>rect_left = rect_left (overlayBox pg), rect_top = rect_bottom r + padding s,
          rect_width = rect_width (overlayBox pg), rect_height = rect_height (overlayBox pg)\<rparr>"
    and r3: "getBoundingClientRect pg d3 =
         \<lparr>rect_left = rect_left r - padding s - rect_width (overlayBox pg),
          rect_top = rect_top r - padding s,
          rect_width = rect_width (overlayBox pg), rect_height = rect_height r + padding s * 2\<rparr>"
    by blast
  let ?s' = "s\<lparr>spotlight_panels := [d0, d1, d2, d3]\<rparr>"
  have p0: "panel_rect pg ?s' 0 = getBoundingClientRect pg d0"
    and p1: "panel_rect pg ?s' 1 = getBoundingClientRect pg d1"
    and p2: "panel_rect pg ?s' 2 = getBoundingClientRect pg d2"
    and p3: "panel_rect pg ?s' 3 = getBoundingClientRect pg d3"
    by (simp_all add: panel_rect_def)
  have edges: "rect_bottom (panel_rect pg ?s' 0) = rect_top r - padding s
     \<and> rect_top (panel_rect pg ?s' 2) = rect_bottom r + padding s
     \<and> rect_left (panel_rect pg ?s' 1) = rect_right r + padding s
     \<and> rect_top (panel_rect pg ?s' 1) = rect_top r - padding s
     \<and> rect_height (panel_rect pg ?s' 1) = rect_height r + 2 * padding s
     \<and> rect_right (panel_rect pg ?s' 3) = rect_left r - padding s
     \<and> rect_top (panel_rect pg ?s' 3) = rect_top r - padding s
     \<and> rect_height (panel_rect pg ?s' 3) = rect_height r + 2 * padding s
     \<and> rect_left (panel_rect pg ?s' 0) = rect_left (overlayBox pg)
     \<and> rect_width (panel_rect pg ?s' 0) = rect_width (overlayBox pg)
     \<and> rect_left (panel_rect pg ?s' 2) = rect_left (overlayBox pg)
     \<and> rect_width (panel_rect pg ?s' 2) = rect_width (overlayBox pg)"
    unfolding p0 p1 p2 p3 r0 r1 r2 r3 by (simp add: rect_bottom_def rect_right_def)
  have c0: "\<And>pt. covers (getBoundingClientRect pg d0) pt \<Longrightarrow> snd pt < rect_top r - padding s"
    unfolding r0 by (simp add: covers_def rect_bottom_def)
  have c1: "\<And>pt. covers (getBoundingClientRect pg d1) pt \<Longrightarrow>
      rect_right r + padding s \<le> fst pt \<and> rect_top r - padding s \<le> snd pt
      \<and> snd pt < rect_bottom r + padding s"
    unfolding r1 by (simp add: covers_def rect_bottom_def)
  have c2: "\<And>pt. covers (getBoundingClientRect pg d2) pt \<Longrightarrow> rect_bottom r + padding s \<le> snd pt"
    unfolding r2 by (simp add: covers_def)
  have c3: "\<And>pt. covers (getBoundingClientRect pg d3) pt \<Longrightarrow>
      fst pt < rect_left r - padding s \<and> rect_top r - padding s \<le> snd pt
      \<and> snd pt < rect_bottom r + padding s"
    unfolding r3 by (simp add: covers_def rect_bottom_def rect_right_def)
  have wide: "rect_left r - padding s \<le> rect_right r + padding s"
    using assms(2,3) by (simp add: rect_right_def)
  have tall: "rect_top r - padding s \<le> rect_bottom r + padding s"
    using assms(2,4) by (simp add: rect_bottom_def)
  have disj: "\<forall>pt i j. i < j \<and> j < 4 \<longrightarrow>
           \<not> (covers (panel_rect pg ?s' i) pt \<and> covers (panel_rect pg ?s' j) pt)"
  proof (intro allI impI)
    fix pt :: "real \<times> real" and i j :: nat
    assume ij: "i < j \<and> j < 4"
    from pairs_below_four [of i j] ij
    consider "i = 0 \<and> j = 1" | "i = 0 \<and> j = 2" | "i = 0 \<and> j = 3"
      | "i = 1 \<and> j = 2" | "i = 1 \<and> j = 3" | "i = 2 \<and> j = 3" by blast
    then show "\<not> (covers (panel_rect pg ?s' i) pt \<and> covers (panel_rect pg ?s' j) pt)"
    proof cases
      case 1 then show ?thesis using c0 [of pt] c1 [of pt] p0 p1 by auto
    next
      case 2 then show ?thesis using c0 [of pt] c2 [of pt] tall p0 p2 by auto
    next
      case 3 then show ?thesis using c0 [of pt] c3 [of pt] p0 p3 by auto
    next
      case 4 then show ?thesis using c1 [of pt] c2 [of pt] p1 p2 by auto
    next
      case 5 then show ?thesis using c1 [of pt] c3 [of pt] wide p1 p3 by auto
    next
      case 6 then show ?thesis using c2 [of pt] c3 [of pt] p2 p3 by auto
    qed
  qed
  have cov: "rect_left (overlayBox pg) \<le> 0 \<and> innerWidth pg \<le> rect_right (overlayBox pg)
         \<and> innerHeight pg \<le> rect_height (overlayBox pg)
         \<and> rect_top r - padding s \<le> innerHeight pg \<and> 0 \<le> rect_bottom r + padding s
         \<and> rect_left r - padding s \<le> innerWidth pg \<and> 0 \<le> rect_right r + padding s
         \<longrightarrow> (\<forall>pt. in_viewport pg pt \<longrightarrow>
                (masked pg ?s' pt \<longleftrightarrow> \<not> covers (expand (padding s) r) pt))"
  proof (intro impI allI)
    fix pt :: "real \<times> real"
    assume css: "rect_left (overlayBox pg) \<le> 0 \<and> innerWidth pg \<le> rect_right (overlayBox pg)
         \<and> innerHeight pg \<le> rect_height (overlayBox pg)
         \<and> rect_top r - padding s \<le> innerHeight pg \<and> 0 \<le> rect_bottom r + padding s
         \<and> rect_left r - padding s \<le> innerWidth pg \<and> 0 \<le> rect_right r + padding s"
      and vp: "in_viewport pg pt"
    have m: "masked pg ?s' pt \<longleftrightarrow>
        covers (getBoundingClientRect pg d0) pt \<or> covers (getBoundingClientRect pg d1) pt
        \<or> covers (getBoundingClientRect pg d2) pt \<or> covers (getBoundingClientRect pg d3) pt"
      by (simp add: masked_def)
    have hole: "covers (expand (padding s) r) pt \<longleftrightarrow>
        rect_left r - padding s \<le> fst pt \<and> fst pt < rect_right r + padding s
        \<and> rect_top r - padding s \<le> snd pt \<and> snd pt < rect_bottom r + padding s"
      by (simp add: covers_def expand_def rect_right_def rect_bottom_def) argo
    have bw: "innerWidth pg \<le> rect_width (overlayBox pg)"
      using css by (simp add: rect_right_def)
    have k0: "covers (getBoundingClientRect pg d0) pt \<longleftrightarrow> snd pt < rect_top r - padding s"
      unfolding r0 using css vp
      by (auto simp: covers_def rect_bottom_def rect_right_def in_viewport_def)
    have k2: "covers (getBoundingClientRect pg d2) pt \<longleftrightarrow> rect_bottom r + padding s \<le> snd pt"
      unfolding r2 using css vp
      by (auto simp: covers_def rect_bottom_def rect_right_def in_viewport_def)
    have k1: "covers (getBoundingClientRect pg d1) pt \<longleftrightarrow>
        rect_right r + padding s \<le> fst pt \<and> rect_top r - padding s \<le> snd pt
        \<and> snd pt < rect_bottom r + padding s"
      unfolding r1 using css vp bw
      by (auto simp: covers_def rect_bottom_def rect_right_def in_viewport_def)
    have k3: "covers (getBoundingClientRect pg d3) pt \<longleftrightarrow>
        fst pt < rect_left r - padding s \<and> rect_top r - padding s \<le> snd pt
        \<and> snd pt < rect_bottom r + padding s"
      unfolding r3 using css vp bw
      by (auto simp: covers_def rect_bottom_def rect_right_def in_viewport_def)
    show "masked pg ?s' pt \<longleftrightarrow> \<not> covers (expand (padding s) r) pt"
      unfolding m hole k0 k1 k2 k3 by linarith
  qed
  from mv edges disj cov show ?thesis by blast
qed

lemma move_four:
  "length (spotlight_panels s) = 4 \<Longrightarrow>
   \<exists>s'. move pg r s = Done s' \<and> length (spotlight_panels s') = 4 \<and> padding s' = padding s"
  by (simp add: move_def panel_update_def)

lemma blackout_four:
  "length (spotlight_panels s) = 4 \<Longrightarrow>
   \<exists>s'. blackout pg s = Done s' \<and> length (spotlight_panels s') = 4 \<and> padding s' = padding s"
  by (simp add: blackout_def panel_update_def)

lemma overlayBox_page0:
  "overlayBox page0 = \<lparr>rect_left = 0, rect_top = 0, rect_width = 800, rect_height = 600\<rparr>"
  by (simp add: overlayBox_def page0_def)

lemma viewport_page0: "innerWidth page0 = 800" "innerHeight page0 = 600"
  by (simp_all add: page0_def)

text \<open>
  C5, as the claim states it for every target rectangle, fails: in a window of 800 by 600
  with panels of that size, a target whose top is at 700 (below the viewport) moves the top
  panel to the rows from 90 on, so the point \<open>(0, 0)\<close> of the viewport lies outside the
  expanded target and under no panel.
\<close>

theorem move_leaves_viewport_unmasked:
  "returned (move page0 rect_below (new_Spotlight (Some 10)))
   \<and> in_viewport page0 (0, 0)
   \<and> \<not> covers (expand 10 rect_below) (0, 0)
   \<and> \<not> masked page0 (state_of (move page0 rect_below (new_Spotlight (Some 10)))) (0, 0)"
  by (simp add: move_def panel_update_def new_Spotlight_panels new_Spotlight_padding
      set_style_height_def overlay_def createElement_div_def getBoundingClientRect_def
      page0_def rect_below_def masked_def covers_def expand_def in_viewport_def
      rect_right_def rect_bottom_def Let_def)

theorem move_panels_cover_witness:
  "\<exists>s'. move page0 rect_a (new_Spotlight (Some 10)) = Done s'
     \<and> rect_bottom (panel_rect page0 s' 0) = 90
     \<and> rect_top (panel_rect page0 s' 2) = 160
     \<and> rect_left (panel_rect page0 s' 1) = 310
     \<and> rect_right (panel_rect page0 s' 3) = 90
     \<and> \<not> (covers (panel_rect page0 s' 0) (0, 0) \<and> covers (panel_rect page0 s' 3) (0, 0))
     \<and> masked page0 s' (0, 0)
     \<and> \<not> masked page0 s' (150, 120)"
proof -
  have h1: "created (new_Spotlight (Some 10))" by (rule new_Spotlight_created)
  have h2: "0 \<le> padding (new_Spotlight (Some 10))" by (simp add: new_Spotlight_padding)
  have h3: "0 \<le> rect_width rect_a" by (simp add: rect_a_def)
  have h4: "0 \<le> rect_height rect_a" by (simp add: rect_a_def)
  have css: "rect_left (overlayBox page0) \<le> 0 \<and> innerWidth page0 \<le> rect_right (overlayBox page0)
         \<and> innerHeight page0 \<le> rect_height (overlayBox page0)
         \<and> rect_top rect_a - padding (new_Spotlight (Some 10)) \<le> innerHeight page0
         \<and> 0 \<le> rect_bottom rect_a + padding (new_Spotlight (Some 10))
         \<and> rect_left rect_a - padding (new_Spotlight (Some 10)) \<le> innerWidth page0
         \<and> 0 \<le> rect_right rect_a + padding (new_Spotlight (Some 10))"
    by (simp add: overlayBox_page0 new_Spotlight_padding rect_a_def rect_right_def
        rect_bottom_def viewport_page0)
  have v1: "in_viewport page0 (0, 0)" "in_viewport page0 (150, 120)"
    by (simp_all add: in_viewport_def viewport_page0)
  have c1: "\<not> covers (expand (padding (new_Spotlight (Some 10))) rect_a) (0, 0)"
    "covers (expand (padding (new_Spotlight (Some 10))) rect_a) (150, 120)"
    by (simp_all add: covers_def expand_def new_Spotlight_padding rect_a_def rect_right_def
        rect_bottom_def)
  have ij: "(0::nat) < 3 \<and> (3::nat) < 4" by simp
  from move_panels_cover [OF h1 h2 h3 h4, of page0]
  obtain s' where s': "move page0 rect_a (new_Spotlight (Some 10)) = Done s'"
    and e: "rect_bottom (panel_rect page0 s' 0) = rect_top rect_a - padding (new_Spotlight (Some 10))"
      "rect_top (panel_rect page0 s' 2) = rect_bottom rect_a + padding (new_Spotlight (Some 10))"
      "rect_left (panel_rect page0 s' 1) = rect_right rect_a + padding (new_Spotlight (Some 10))"
      "rect_right (panel_rect page0 s' 3) = rect_left rect_a - padding (new_Spotlight (Some 10))"
    and d: "\<forall>pt i j. i < j \<and> j < 4 \<longrightarrow>
           \<not> (covers (panel_rect page0 s' i) pt \<and> covers (panel_rect page0 s' j) pt)"
    and m: "\<forall>pt. in_viewport page0 pt \<longrightarrow>
                (masked page0 s' pt \<longleftrightarrow>
                 \<not> covers (expand (padding (new_Spotlight (Some 10))) rect_a) pt)"
    using css by blast
  have "\<not> (covers (panel_rect page0 s' 0) (0, 0) \<and> covers (panel_rect page0 s' 3) (0, 0))"
    using d ij by blast
  moreover have "masked page0 s' (0, 0)" "\<not> masked page0 s' (150, 120)"
    using m v1 c1 by blast+
  moreover have "rect_bottom (panel_rect page0 s' 0) = 90"
    "rect_top (panel_rect page0 s' 2) = 160" "rect_left (panel_rect page0 s' 1) = 310"
    "rect_right (panel_rect page0 s' 3) = 90"
    using e by (simp_all add: new_Spotlight_padding rect_a_def rect_right_def rect_bottom_def)
  ultimately show ?thesis using s' by blast
qed

text \<open>
  C9, as the claim states it, fails: after \<open>blackout\<close> the top panel sits at top 0, and in
  a window of 800 by 600 with panels of that size the point \<open>(0, 0)\<close> of the viewport is
  under it.
\<close>

theorem blackout_masks_viewport:
  "returned (blackout page0 (new_Spotlight (Some 10)))
   \<and> in_viewport page0 (0, 0)
   \<and> masked page0 (state_of (blackout page0 (new_Spotlight (Some 10)))) (0, 0)"
  by (simp add: blackout_def panel_update_def new_Spotlight_panels
      overlay_def createElement_div_def getBoundingClientRect_def
      page0_def masked_def covers_def in_viewport_def
      rect_right_def rect_bottom_def Let_def)

text \<open>What \<open>makeStep\<close> does to the Spotlight on a step without a target.\<close>

lemma makeStep_without_target:
  assumes "stepAt (steps t) (step t) = Some st" and "truthy_id (step_id st) = None"
    and "popupElement t = Some p" and "spotlight_opt (options t)" and "spotlight t = Some s"
    and "blackout pg s = Done s'"
  shows "\<exists>t' w'. makeStep pg (t, w) = Done (t', w') \<and> currentElement t' = None
     \<and> spotlight t' = Some s'"
  using assms
  by (simp add: makeStep_def updatePopup_def locate_def getCenterPos_def movePopup_def
      moveSpotlight_def Let_def)

text \<open>
  C9, amended. For every Spotlight of the class, \<open>blackout\<close> returns and puts the top
  panel at top 0, the right panel's left edge at the panel width, the bottom panel's top
  edge at the panel height and the left panel's right edge at 0. The left panel then covers
  no point of the viewport, nor do the right and the bottom panel when the panels are at
  least as wide and as high as the viewport; the top panel, when the stylesheet makes it
  span the viewport, covers every point of it: the viewport is filled, not cleared. This
  is what rendering a step without a target element does: on a tour with its popup, the
  spotlight option on and this Spotlight, \<open>makeStep\<close> for a step whose id is undefined or
  empty returns, holds no current element and leaves the Spotlight as \<open>blackout\<close> makes it.
\<close>

theorem blackout_panels:
  assumes "created s" and "0 \<le> rect_width (overlayBox pg)"
  shows "\<exists>s'. blackout pg s = Done s'
     \<and> rect_top (panel_rect pg s' 0) = 0
     \<and> rect_left (panel_rect pg s' 1) = rect_width (overlayBox pg)
     \<and> rect_top (panel_rect pg s' 2) = rect_height (overlayBox pg)
     \<and> rect_right (panel_rect pg s' 3) = 0
     \<and> (\<forall>pt. in_viewport pg pt \<longrightarrow> \<not> covers (panel_rect pg s' 3) pt)
     \<and> (innerWidth pg \<le> rect_width (overlayBox pg) \<longrightarrow>
          (\<forall>pt. in_viewport pg pt \<longrightarrow> \<not> covers (panel_rect pg s' 1) pt))
     \<and> (innerHeight pg \<le> rect_height (overlayBox pg) \<longrightarrow>
          (\<forall>pt. in_viewport pg pt \<longrightarrow> \<not> covers (panel_rect pg s' 2) pt))
     \<and> (rect_left (overlayBox pg) \<le> 0 \<and> innerWidth pg \<le> rect_right (overlayBox pg)
         \<and> innerHeight pg \<le> rect_height (overlayBox pg) \<longrightarrow>
          (\<forall>pt. in_viewport pg pt \<longrightarrow> covers (panel_rect pg s' 0) pt))
     \<and> (stepAt (steps t) (step t) = Some st \<and> truthy_id (step_id st) = None
         \<and> popupElement t = Some p \<and> spotlight_opt (options t) \<and> spotlight t = Some s
         \<longrightarrow> (\<exists>t' w'. makeStep pg (t, w) = Done (t', w') \<and> currentElement t' = None
                \<and> spotlight t' = Some s'))"
proof -
  from blackout_rects [OF assms]
  obtain d0 d1 d2 d3 where bl: "blackout pg s = Done (s\<lparr>spotlight_panels := [d0, d1, d2, d3]\<rparr>)"
    and r: "rect_left (getBoundingClientRect pg d0) = rect_left (overlayBox pg)"
      "rect_top (getBoundingClientRect pg d0) = 0"
      "rect_width (getBoundingClientRect pg d0) = rect_width (overlayBox pg)"
      "rect_height (getBoundingClientRect pg d0) = rect_height (overlayBox pg)"
      "rect_left (getBoundingClientRect pg d1) = rect_width (overlayBox pg)"
      "rect_top (getBoundingClientRect pg d2) = rect_height (overlayBox pg)"
      "rect_right (getBoundingClientRect pg d3) = 0"
    by blast
  let ?s' = "s\<lparr>spotlight_panels := [d0, d1, d2, d3]\<rparr>"
  have p: "panel_rect pg ?s' 0 = getBoundingClientRect pg d0"
    "panel_rect pg ?s' 1 = getBoundingClientRect pg d1"
    "panel_rect pg ?s' 2 = getBoundingClientRect pg d2"
    "panel_rect pg ?s' 3 = getBoundingClientRect pg d3"
    by (simp_all add: panel_rect_def)
  have "rect_top (panel_rect pg ?s' 0) = 0
     \<and> rect_left (panel_rect pg ?s' 1) = rect_width (overlayBox pg)
     \<and> rect_top (panel_rect pg ?s' 2) = rect_height (overlayBox pg)
     \<and> rect_right (panel_rect pg ?s' 3) = 0"
    unfolding p using r by simp
  moreover have "\<forall>pt. in_viewport pg pt \<longrightarrow> \<not> covers (panel_rect pg ?s' 3) pt"
    unfolding p using r(7) by (auto simp: covers_def in_viewport_def)
  moreover have "innerWidth pg \<le> rect_width (overlayBox pg) \<longrightarrow>
          (\<forall>pt. in_viewport pg pt \<longrightarrow> \<not> covers (panel_rect pg ?s' 1) pt)"
    unfolding p using r(5) by (auto simp: covers_def in_viewport_def)
  moreover have "innerHeight pg \<le> rect_height (overlayBox pg) \<longrightarrow>
          (\<forall>pt. in_viewport pg pt \<longrightarrow> \<not> covers (panel_rect pg ?s' 2) pt)"
    unfolding p using r(6) by (auto simp: covers_def in_viewport_def)
  moreover have "rect_left (overlayBox pg) \<le> 0 \<and> innerWidth pg \<le> rect_right (overlayBox pg)
         \<and> innerHeight pg \<le> rect_height (overlayBox pg) \<longrightarrow>
          (\<forall>pt. in_viewport pg pt \<longrightarrow> covers (panel_rect pg ?s' 0) pt)"
    unfolding p using r(1-4)
    by (auto simp: covers_def in_viewport_def rect_right_def rect_bottom_def)
  moreover have "stepAt (steps t) (step t) = Some st \<and> truthy_id (step_id st) = None
         \<and> popupElement t = Some p \<and> spotlight_opt (options t) \<and> spotlight t = Some s
         \<longrightarrow> (\<exists>t' w'. makeStep pg (t, w) = Done (t', w') \<and> currentElement t' = None
                \<and> spotlight t' = Some ?s')"
    using makeStep_without_target [of t st p s pg ?s' w] bl by blast
  ultimately show ?thesis using bl by blast
qed

theorem blackout_panels_witness:
  "\<exists>s'. blackout page0 (new_Spotlight (Some 10)) = Done s'
     \<and> rect_top (panel_rect page0 s' 0) = 0
     \<and> rect_left (panel_rect page0 s' 1) = 800
     \<and> rect_top (panel_rect page0 s' 2) = 600
     \<and> rect_right (panel_rect page0 s' 3) = 0
     \<and> covers (panel_rect page0 s' 0) (400, 300)
     \<and> \<not> covers (panel_rect page0 s' 1) (400, 300)
     \<and> \<not> covers (panel_rect page0 s' 2) (400, 300)
     \<and> \<not> covers (panel_rect page0 s' 3) (400, 300)
     \<and> (\<exists>t' w'. makeStep page0 (tour2, window0) = Done (t', w') \<and> currentElement t' = None
            \<and> spotlight t' = Some s')"
proof -
  have h1: "created (new_Spotlight (Some 10))" by (rule new_Spotlight_created)
  have h2: "0 \<le> rect_width (overlayBox page0)" by (simp add: overlayBox_page0)
  have css: "innerWidth page0 \<le> rect_width (overlayBox page0)"
    "innerHeight page0 \<le> rect_height (overlayBox page0)"
    "rect_left (overlayBox page0) \<le> 0 \<and> innerWidth page0 \<le> rect_right (overlayBox page0)
         \<and> innerHeight page0 \<le> rect_height (overlayBox page0)"
    by (simp_all add: overlayBox_page0 viewport_page0 rect_right_def)
  have v: "in_viewport page0 (400, 300)" by (simp add: in_viewport_def viewport_page0)
  have tr: "stepAt (steps tour2) (step tour2)
        = Some \<lparr>step_id = None, step_text = ''Welcome'', step_img = None\<rparr>
      \<and> truthy_id (step_id \<lparr>step_id = None, step_text = ''Welcome'', step_img = None\<rparr>) = None
      \<and> popupElement tour2
        = Some (createElement_div\<lparr>classList := [''tour-popup-container''], attached := True\<rparr>)
      \<and> spotlight_opt (options tour2) \<and> spotlight tour2 = Some (new_Spotlight (Some 10))"
    by (simp add: tour2_def createPopup_def new_Tour_def setOptions_def stepAt_def
        truthy_id_def)
  from blackout_panels [OF h1 h2, of tour2
      "\<lparr>step_id = None, step_text = ''Welcome'', step_img = None\<rparr>"
      "createElement_div\<lparr>classList := [''tour-popup-container''], attached := True\<rparr>"
      window0] css v tr
  obtain s' where "blackout page0 (new_Spotlight (Some 10)) = Done s'"
     "rect_top (panel_rect page0 s' 0) = 0"
     "rect_left (panel_rect page0 s' 1) = rect_width (overlayBox page0)"
     "rect_top (panel_rect page0 s' 2) = rect_height (overlayBox page0)"
     "rect_right (panel_rect page0 s' 3) = 0"
     "covers (panel_rect page0 s' 0) (400, 300)"
     "\<not> covers (panel_rect page0 s' 1) (400, 300)"
     "\<not> covers (panel_rect page0 s' 2) (400, 300)"
     "\<not> covers (panel_rect page0 s' 3) (400, 300)"
     "\<exists>t' w'. makeStep page0 (tour2, window0) = Done (t', w') \<and> currentElement t' = None
            \<and> spotlight t' = Some s'"
    by blast
  then show ?thesis by (auto simp: overlayBox_page0)
qed

text \<open>
  C8, as the claim states it, fails: on a Spotlight with an empty panel list \<open>move\<close> does
  not return; the first panel access raises a TypeError. The class has no log.
\<close>

theorem move_without_panels_raises:
  "move page0 rect_a \<lparr>padding = 10, spotlight_panels = []\<rparr>
     = Raised TypeError \<lparr>padding = 10, spotlight_panels = []\<rparr>
   \<and> \<not> returned (move page0 rect_a \<lparr>padding = 10, spotlight_panels = []\<rparr>)"
  by (simp add: move_def panel_update_def)

text \<open>
  C8, amended. On a Spotlight whose panel list is empty, \<open>move\<close> raises a TypeError at the
  first panel access and leaves the Spotlight as it was; nothing is logged. The constructor
  always creates the four panels, and on a Spotlight it built \<open>move\<close> returns.
\<close>

theorem move_needs_panels:
  "(spotlight_panels s = [] \<longrightarrow> move pg r s = Raised TypeError s)
   \<and> length (spotlight_panels (new_Spotlight pad)) = 4
   \<and> returned (move pg r (new_Spotlight pad))"
proof -
  have "length (spotlight_panels (new_Spotlight pad)) = 4" by (simp add: new_Spotlight_panels)
  moreover from move_four [OF this, of pg r] have "returned (move pg r (new_Spotlight pad))"
    by auto
  moreover have "spotlight_panels s = [] \<longrightarrow> move pg r s = Raised TypeError s"
    by (simp add: move_def panel_update_def)
  ultimately show ?thesis by blast
qed

theorem move_needs_panels_witness:
  "move page0 rect_a \<lparr>padding = 10, spotlight_panels = []\<rparr>
     = Raised TypeError \<lparr>padding = 10, spotlight_panels = []\<rparr>
   \<and> returned (move page0 rect_a (new_Spotlight (Some 10)))"
  using move_needs_panels [of "\<lparr>padding = 10, spotlight_panels = []\<rparr>" page0 rect_a "Some 10"]
  by simp

section \<open>Popup placement\<close>

text \<open>The branches of the arithmetic of \<open>getPopupPos\<close>.\<close>

lemma popupPos_cases:
  "(rect_width D - rect_width R \<le> rect_width D / 2 \<and> rect_bottom R < V / 2 \<longrightarrow>
      popupPos D R Q V =
        ((\<bar>rect_left R + rect_width R / 2 - rect_width Q / 2\<bar>, \<bar>rect_bottom R + 10\<bar>), False))
   \<and> (rect_width D - rect_width R \<le> rect_width D / 2 \<and> \<not> rect_bottom R < V / 2 \<longrightarrow>
      popupPos D R Q V =
        ((\<bar>rect_left R + rect_width R / 2 - rect_width Q / 2\<bar>,
          \<bar>rect_top R - 10 - rect_height Q\<bar>), False))
   \<and> (\<not> rect_width D - rect_width R \<le> rect_width D / 2 \<and> rect_right R < rect_width D / 2
        \<and> \<not> rect_width D - rect_width Q < rect_right R \<longrightarrow>
      popupPos D R Q V =
        ((\<bar>rect_right R + 10\<bar>, \<bar>rect_top R + rect_height R / 2 - rect_height Q / 2\<bar>), False))
   \<and> (\<not> rect_width D - rect_width R \<le> rect_width D / 2 \<and> rect_right R < rect_width D / 2
        \<and> rect_width D - rect_width Q < rect_right R \<longrightarrow>
      popupPos D R Q V =
        ((\<bar>rect_left R + rect_width R / 2 - rect_width Q / 2\<bar>, \<bar>rect_bottom R + 10\<bar>), True))
   \<and> (\<not> rect_width D - rect_width R \<le> rect_width D / 2 \<and> \<not> rect_right R < rect_width D / 2
        \<and> \<not> rect_width Q > rect_left R \<longrightarrow>
      popupPos D R Q V =
        ((max 0 (rect_left R - 10 - rect_width Q),
          \<bar>rect_top R + rect_height R / 2 - rect_height Q / 2\<bar>), False)
      \<and> max 0 (rect_left R - 10 - rect_width Q) + rect_width Q \<le> rect_left R)
   \<and> (\<not> rect_width D - rect_width R \<le> rect_width D / 2 \<and> \<not> rect_right R < rect_width D / 2
        \<and> rect_width Q > rect_left R \<longrightarrow>
      popupPos D R Q V =
        ((\<bar>rect_left R + rect_width R / 2 - rect_width Q / 2\<bar>, \<bar>rect_bottom R + 10\<bar>), True))
   \<and> 0 \<le> fst (fst (popupPos D R Q V)) \<and> 0 \<le> snd (fst (popupPos D R Q V))"
  by (auto simp: popupPos_def Let_def max_def)

lemma getPopupPos_popupPos:
  assumes "currentElement t = Some el" and "popupElement t = Some popup"
    and "w1 = w\<lparr>scroll := scrollIntoView pg el (getTopOrBottom pg el)
                    (scrollMargin (options t)) (scroll w)\<rparr>"
    and "w2 = w1\<lparr>scroll := scrollIntoView pg el True (scrollMargin (options t)) (scroll w1)\<rparr>"
    and "D = bodyRect pg (scroll w1)" and "R = elementRect pg (scroll w1) el"
    and "Q = getBoundingClientRect pg popup" and "V = innerHeight pg"
  shows "getPopupPos pg t w =
      (Inr (fst (popupPos D R Q V)), if snd (popupPos D R Q V) then w2 else w1)"
  using assms by (simp add: getPopupPos_def Let_def split: prod.splits)

text \<open>
  C6. In target-relative mode \<open>getPopupPos\<close> scrolls the target into view (aligned to the
  top if the target lies in the upper half of the document), then measures the document
  rectangle \<open>D\<close>, the target rectangle \<open>R\<close> and the popup rectangle \<open>Q\<close>, and with the
  viewport height \<open>V\<close> and the offset 10 returns: when \<open>D.width - R.width \<le> D.width / 2\<close>,
  the position below \<open>R\<close> if \<open>R.bottom < V / 2\<close> and above it otherwise, the centre aligned
  horizontally with that of \<open>R\<close>; otherwise the position to the right of \<open>R\<close> if
  \<open>R.right < D.width / 2\<close> and to the left otherwise (there x is \<open>R.left - 10 - Q.width\<close>,
  or 0 if that is negative, so that the popup ends left of \<open>R\<close>), the centre aligned
  vertically with that of \<open>R\<close>; on a side without room (\<open>D.width - Q.width < R.right\<close> on
  the right, \<open>Q.width > R.left\<close> on the left) it falls back to the position below \<open>R\<close> and
  calls \<open>scrollIntoView(true)\<close> on the target again (the window \<open>w2\<close> instead of \<open>w1\<close>).
  The coordinates returned are the absolute values, so neither is negative.
\<close>

theorem getPopupPos_placement:
  assumes "currentElement t = Some el" and "popupElement t = Some popup"
    and "w1 = w\<lparr>scroll := scrollIntoView pg el (getTopOrBottom pg el)
                    (scrollMargin (options t)) (scroll w)\<rparr>"
    and "w2 = w1\<lparr>scroll := scrollIntoView pg el True (scrollMargin (options t)) (scroll w1)\<rparr>"
    and "D = bodyRect pg (scroll w1)" and "R = elementRect pg (scroll w1) el"
    and "Q = getBoundingClientRect pg popup" and "V = innerHeight pg"
  shows "(rect_width D - rect_width R \<le> rect_width D / 2 \<and> rect_bottom R < V / 2 \<longrightarrow>
      getPopupPos pg t w =
        (Inr (\<bar>rect_left R + rect_width R / 2 - rect_width Q / 2\<bar>, \<bar>rect_bottom R + 10\<bar>), w1))
   \<and> (rect_width D - rect_width R \<le> rect_width D / 2 \<and> \<not> rect_bottom R < V / 2 \<longrightarrow>
      getPopupPos pg t w =
        (Inr (\<bar>rect_left R + rect_width R / 2 - rect_width Q / 2\<bar>,
              \<bar>rect_top R - 10 - rect_height Q\<bar>), w1))
   \<and> (\<not> rect_width D - rect_width R \<le> rect_width D / 2 \<and> rect_right R < rect_width D / 2
        \<and> \<not> rect_width D - rect_width Q < rect_right R \<longrightarrow>
      getPopupPos pg t w =
        (Inr (\<bar>rect_right R + 10\<bar>, \<bar>rect_top R + rect_height R / 2 - rect_height Q / 2\<bar>), w1))
   \<and> (\<not> rect_width D - rect_width R \<le> rect_width D / 2 \<and> rect_right R < rect_width D / 2
        \<and> rect_width D - rect_width Q < rect_right R \<longrightarrow>
      getPopupPos pg t w =
        (Inr (\<bar>rect_left R + rect_width R / 2 - rect_width Q / 2\<bar>, \<bar>rect_bottom R + 10\<bar>), w2))
   \<and> (\<not> rect_width D - rect_width R \<le> rect_width D / 2 \<and> \<not> rect_right R < rect_width D / 2
        \<and> \<not> rect_width Q > rect_left R \<longrightarrow>
      getPopupPos pg t w =
        (Inr (max 0 (rect_left R - 10 - rect_width Q),
              \<bar>rect_top R + rect_height R / 2 - rect_height Q / 2\<bar>), w1)
      \<and> max 0 (rect_left R - 10 - rect_width Q) + rect_width Q \<le> rect_left R)
   \<and> (\<not> rect_width D - rect_width R \<le> rect_width D / 2 \<and> \<not> rect_right R < rect_width D / 2
        \<and> rect_width Q > rect_left R \<longrightarrow>
      getPopupPos pg t w =
        (Inr (\<bar>rect_left R + rect_width R / 2 - rect_width Q / 2\<bar>, \<bar>rect_bottom R + 10\<bar>), w2))
   \<and> (\<exists>x y w'. getPopupPos pg t w = (Inr (x, y), w') \<and> 0 \<le> x \<and> 0 \<le> y)"
proof -
  note gp = getPopupPos_popupPos [OF assms]
  note cases = popupPos_cases [of D R V Q]
  have nonneg: "\<exists>x y w'. getPopupPos pg t w = (Inr (x, y), w') \<and> 0 \<le> x \<and> 0 \<le> y"
    unfolding gp using cases
    by (intro exI [of _ "fst (fst (popupPos D R Q V))"] exI [of _ "snd (fst (popupPos D R Q V))"]
        exI [of _ "if snd (popupPos D R Q V) then w2 else w1"]) simp
  show ?thesis
    using cases nonneg unfolding gp by (intro conjI impI) simp_all
qed

lemma tour3_fields:
  "currentElement tour3 = Some ''a''"
  "popupElement tour3 =
     Some (createElement_div\<lparr>classList := [''tour-popup-container''], attached := True\<rparr>)"
  by (simp_all add: tour3_def createPopup_def)

theorem getPopupPos_placement_witness:
  "getPopupPos
      (page_with \<lparr>rect_left = 100, rect_top = 100, rect_width = 500, rect_height = 50\<rparr>
         \<lparr>rect_left = 0, rect_top = 0, rect_width = 300, rect_height = 120\<rparr>) tour3 window0
     = (Inr (200, 160), window0\<lparr>scroll := (0, 1)\<rparr>)
   \<and> getPopupPos
      (page_with \<lparr>rect_left = 100, rect_top = 400, rect_width = 500, rect_height = 50\<rparr>
         \<lparr>rect_left = 0, rect_top = 0, rect_width = 300, rect_height = 120\<rparr>) tour3 window0
     = (Inr (200, 270), window0\<lparr>scroll := (0, 1)\<rparr>)
   \<and> getPopupPos
      (page_with \<lparr>rect_left = 100, rect_top = 100, rect_width = 200, rect_height = 50\<rparr>
         \<lparr>rect_left = 0, rect_top = 0, rect_width = 300, rect_height = 120\<rparr>) tour3 window0
     = (Inr (310, 65), window0\<lparr>scroll := (0, 1)\<rparr>)
   \<and> getPopupPos
      (page_with \<lparr>rect_left = 100, rect_top = 100, rect_width = 200, rect_height = 50\<rparr>
         \<lparr>rect_left = 0, rect_top = 0, rect_width = 600, rect_height = 120\<rparr>) tour3 window0
     = (Inr (100, 160), window0\<lparr>scroll := (0, 2)\<rparr>)
   \<and> getPopupPos
      (page_with \<lparr>rect_left = 500, rect_top = 300, rect_width = 100, rect_height = 40\<rparr>
         \<lparr>rect_left = 0, rect_top = 0, rect_width = 300, rect_height = 120\<rparr>) tour3 window0
     = (Inr (190, 260), window0\<lparr>scroll := (0, 1)\<rparr>)
   \<and> getPopupPos
      (page_with \<lparr>rect_left = 500, rect_top = 300, rect_width = 100, rect_height = 40\<rparr>
         \<lparr>rect_left = 0, rect_top = 0, rect_width = 600, rect_height = 120\<rparr>) tour3 window0
     = (Inr (250, 350), window0\<lparr>scroll := (0, 2)\<rparr>)"
proof -
  note cur = tour3_fields(1) and pop = tour3_fields(2)
  note ev = page_with_def page0_def window0_def getTopOrBottom_def getBoundingClientRect_def
    createElement_div_def rect_right_def rect_bottom_def
  have 1: "getPopupPos
      (page_with \<lparr>rect_left = 100, rect_top = 100, rect_width = 500, rect_height = 50\<rparr>
         \<lparr>rect_left = 0, rect_top = 0, rect_width = 300, rect_height = 120\<rparr>) tour3 window0
     = (Inr (200, 160), window0\<lparr>scroll := (0, 1)\<rparr>)"
    using getPopupPos_placement [where t = tour3 and w = window0 and pg = "page_with
         \<lparr>rect_left = 100, rect_top = 100, rect_width = 500, rect_height = 50\<rparr>
         \<lparr>rect_left = 0, rect_top = 0, rect_width = 300, rect_height = 120\<rparr>",
        OF cur pop refl refl refl refl refl refl]
    by (simp add: ev)
  have 2: "getPopupPos
      (page_with \<lparr>rect_left = 100, rect_top = 400, rect_width = 500, rect_height = 50\<rparr>
         \<lparr>rect_left = 0, rect_top = 0, rect_width = 300, rect_height = 120\<rparr>) tour3 window0
     = (Inr (200, 270), window0\<lparr>scroll := (0, 1)\<rparr>)"
    using getPopupPos_placement [where t = tour3 and w = window0 and pg = "page_with
         \<lparr>rect_left = 100, rect_top = 400, rect_width = 500, rect_height = 50\<rparr>
         \<lparr>rect_left = 0, rect_top = 0, rect_width = 300, rect_height = 120\<rparr>",
        OF cur pop refl refl refl refl refl refl]
    by (simp add: ev)
  have 3: "getPopupPos
      (page_with \<lparr>rect_left = 100, rect_top = 100, rect_width = 200, rect_height = 50\<rparr>
         \<lparr>rect_left = 0, rect_top = 0, rect_width = 300, rect_height = 120\<rparr>) tour3 window0
     = (Inr (310, 65), window0\<lparr>scroll := (0, 1)\<rparr>)"
    using getPopupPos_placement [where t = tour3 and w = window0 and pg = "page_with
         \<lparr>rect_left = 100, rect_top = 100, rect_width = 200, rect_height = 50\<rparr>
         \<lparr>rect_left = 0, rect_top = 0, rect_width = 300, rect_height = 120\<rparr>",
        OF cur pop refl refl refl refl refl refl]
    by (simp add: ev)
  have 4: "getPopupPos
      (page_with \<lparr>rect_left = 100, rect_top = 100, rect_width = 200, rect_height = 50\<rparr>
         \<lparr>rect_left = 0, rect_top = 0, rect_width = 600, rect_height = 120\<rparr>) tour3 window0
     = (Inr (100, 160), window0\<lparr>scroll := (0, 2)\<rparr>)"
    using getPopupPos_placement [where t = tour3 and w = window0 and pg = "page_with
         \<lparr>rect_left = 100, rect_top = 100, rect_width = 200, rect_height = 50\<rparr>
         \<lparr>rect_left = 0, rect_top = 0, rect_width = 600, rect_height = 120\<rparr>",
        OF cur pop refl refl refl refl refl refl]
    by (simp add: ev)
  have 5: "getPopupPos
      (page_with \<lparr>rect_left = 500, rect_top = 300, rect_width = 100, rect_height = 40\<rparr>
         \<lparr>rect_left = 0, rect_top = 0, rect_width = 300, rect_height = 120\<rparr>) tour3 window0
     = (Inr (190, 260), window0\<lparr>scroll := (0, 1)\<rparr>)"
    using getPopupPos_placement [where t = tour3 and w = window0 and pg = "page_with
         \<lparr>rect_left = 500, rect_top = 300, rect_width = 100, rect_height = 40\<rparr>
         \<lparr>rect_left = 0, rect_top = 0, rect_width = 300, rect_height = 120\<rparr>",
        OF cur pop refl refl refl refl refl refl]
    by (simp add: ev)
  have 6: "getPopupPos
      (page_with \<lparr>rect_left = 500, rect_top = 300, rect_width = 100, rect_height = 40\<rparr>
         \<lparr>rect_left = 0, rect_top = 0, rect_width = 600, rect_height = 120\<rparr>) tour3 window0
     = (Inr (250, 350), window0\<lparr>scroll := (0, 2)\<rparr>)"
    using getPopupPos_placement [where t = tour3 and w = window0 and pg = "page_with
         \<lparr>rect_left = 500, rect_top = 300, rect_width = 100, rect_height = 40\<rparr>
         \<lparr>rect_left = 0, rect_top = 0, rect_width = 600, rect_height = 120\<rparr>",
        OF cur pop refl refl refl refl refl refl]
    by (simp add: ev)
  from 1 2 3 4 5 6 show ?thesis by blast
qed

section \<open>The step state machine\<close>

subsection \<open>What rendering a step leaves alone\<close>

lemma same_config_trans: "same_config a b \<Longrightarrow> same_config b c \<Longrightarrow> same_config a c"
  by (simp add: same_config_def)

lemma popupHtml_cong:
  "same_config t t' \<Longrightarrow> popupHtml t' s = popupHtml t s"
  by (simp add: same_config_def popupHtml_def isLastStep_def split: prod.splits)

lemma popupHtml_currentState:
  "popupHtml (t\<lparr>currentState := c, step := n\<rparr>) s = popupHtml (t\<lparr>step := n\<rparr>) s"
  by (simp add: popupHtml_def isLastStep_def split: prod.splits)

lemma stepAt_in_range: "k < length xs \<Longrightarrow> stepAt xs (Num (int k)) = Some (xs ! k)"
  by (simp add: stepAt_def)

lemma updatePopup_Inr:
  "stepAt (steps t) (step t) = Some s \<Longrightarrow> popupElement t = Some p \<Longrightarrow>
   updatePopup t = Inr (t\<lparr>popupElement := Some (p\<lparr>innerHTML := popupHtml t s\<rparr>)\<rparr>)"
  by (simp add: updatePopup_def)

lemma getPopupPos_window:
  "getPopupPos pg t w = (res, w') \<Longrightarrow>
   onresize w' = onresize w \<and> console w' = console w"
  by (auto simp: getPopupPos_def Let_def split: option.splits prod.splits if_splits)

lemma locate_frame:
  "locate pg s (t, w) = (res, (t', w')) \<Longrightarrow>
   same_config t t' \<and> popupElement t' = popupElement t \<and> spotlight t' = spotlight t
   \<and> onresize w' = onresize w \<and> console w' = console w"
  by (auto simp: locate_def Let_def toggleResizeObserver_def same_config_def
      dest: getPopupPos_window split: option.splits prod.splits if_splits sum.splits)

lemma moveSpotlight_frame:
  "state_of (moveSpotlight pg (t, w)) = (t', w') \<Longrightarrow>
   same_config t t' \<and> popupElement t' = popupElement t \<and> w' = w
   \<and> (spotlight t = None \<longleftrightarrow> spotlight t' = None)"
  by (auto simp: moveSpotlight_def same_config_def split: option.splits outcome.splits if_splits)

lemma makeStep_frame:
  assumes "stepAt (steps t) (step t) = Some s" "popupElement t = Some p"
    and "state_of (makeStep pg (t, w)) = (t', w')"
  shows "same_config t t' \<and> onresize w' = onresize w \<and> console w' = console w
     \<and> (\<exists>p'. popupElement t' = Some p' \<and> innerHTML p' = popupHtml t s
          \<and> attached p' = attached p \<and> classList p' = classList p)"
proof -
  let ?t1 = "t\<lparr>popupElement := Some (p\<lparr>innerHTML := popupHtml t s\<rparr>)\<rparr>"
  have up: "updatePopup t = Inr ?t1" using assms(1,2) by (rule updatePopup_Inr)
  have c1: "same_config t ?t1" by (simp add: same_config_def)
  obtain res t2 w2 where loc: "locate pg s (?t1, w) = (res, (t2, w2))"
    by (metis prod.exhaust)
  have f2: "same_config ?t1 t2" "popupElement t2 = popupElement ?t1"
    "onresize w2 = onresize w" "console w2 = console w"
    using locate_frame [OF loc] by auto
  show ?thesis
  proof (cases res)
    case (Inl e)
    then have "makeStep pg (t, w) = Raised e (t2, w2)"
      using assms(1) up loc by (simp add: makeStep_def)
    then have "t' = t2" "w' = w2" using assms(3) by simp_all
    then show ?thesis using f2 c1 by (auto simp: same_config_def)
  next
    case (Inr coordinates)
    let ?t3 = "t2\<lparr>popupElement := Some (p\<lparr>innerHTML := popupHtml t s,
                  style_left := Some (fst coordinates), style_top := Some (snd coordinates)\<rparr>)\<rparr>"
    have mv: "movePopup coordinates t2 = Inr ?t3"
      using f2(2) by (simp add: movePopup_def)
    obtain t4 w4 where ms: "state_of (moveSpotlight pg (?t3, w2)) = (t4, w4)"
      by (metis prod.exhaust)
    have f4: "same_config ?t3 t4" "popupElement t4 = popupElement ?t3" "w4 = w2"
      using moveSpotlight_frame [OF ms] by auto
    have "fst (state_of (makeStep pg (t, w))) = t4
        \<and> onresize (snd (state_of (makeStep pg (t, w)))) = onresize w4
        \<and> console (snd (state_of (makeStep pg (t, w)))) = console w4"
      using assms(1) up loc Inr mv ms
      by (cases "moveSpotlight pg (?t3, w2)") (auto simp: makeStep_def toggleScroll_def)
    then have "t' = t4" "onresize w' = onresize w4" "console w' = console w4"
      using assms(3) by simp_all
    then show ?thesis using f2 f4 c1 by (auto simp: same_config_def)
  qed
qed

lemma makeStep_out_of_range:
  "stepAt (steps t) (step t) = None \<Longrightarrow> makeStep pg (t, w) = Raised TypeError (t, w)"
  by (simp add: makeStep_def)

lemma makeStep_keeps:
  assumes "popupElement t = Some p"
  shows "currentState (fst (state_of (makeStep pg (t, w)))) = currentState t
     \<and> onresize (snd (state_of (makeStep pg (t, w)))) = onresize w
     \<and> console (snd (state_of (makeStep pg (t, w)))) = console w
     \<and> (\<exists>p'. popupElement (fst (state_of (makeStep pg (t, w)))) = Some p'
          \<and> attached p' = attached p \<and> classList p' = classList p)"
proof (cases "stepAt (steps t) (step t)")
  case None
  then show ?thesis using assms by (simp add: makeStep_out_of_range)
next
  case (Some s)
  obtain t' w' where res: "state_of (makeStep pg (t, w)) = (t', w')" by (metis prod.exhaust)
  from makeStep_frame [OF Some assms res] show ?thesis
    unfolding res by (auto simp: same_config_def)
qed

lemma unobserveCurrent_frame:
  "same_config t (unobserveCurrent t) \<and> popupElement (unobserveCurrent t) = popupElement t
   \<and> spotlight (unobserveCurrent t) = spotlight t"
  by (auto simp: unobserveCurrent_def toggleResizeObserver_def same_config_def
      split: option.splits sum.splits)

subsection \<open>When every call returns\<close>

lemma moveSpotlight_returns:
  assumes "ready t"
  shows "\<exists>t'. moveSpotlight pg (t, w) = Done (t', w) \<and> ready t'"
proof (cases "spotlight_opt (options t)")
  case False
  then show ?thesis using assms by (auto simp: moveSpotlight_def)
next
  case True
  then obtain sp where sp: "spotlight t = Some sp" "length (spotlight_panels sp) = 4"
    using assms by (auto simp: ready_def split: option.splits)
  show ?thesis
  proof (cases "currentElement t")
    case None
    from blackout_four [OF sp(2), of pg] obtain sp' where
      "blackout pg sp = Done sp'" "length (spotlight_panels sp') = 4" by blast
    then show ?thesis using True sp None
      by (auto simp: moveSpotlight_def ready_def)
  next
    case (Some el)
    from move_four [OF sp(2), of pg "elementRect pg (scroll w) el"] obtain sp' where
      "move pg (elementRect pg (scroll w) el) sp = Done sp'" "length (spotlight_panels sp') = 4"
      by blast
    then show ?thesis using True sp Some
      by (auto simp: moveSpotlight_def ready_def)
  qed
qed

lemma locate_returns:
  assumes "popupElement t = Some p" "resolvable pg s"
  shows "\<exists>c t' w'. locate pg s (t, w) = (Inr c, (t', w')) \<and> popupElement t' = Some p
     \<and> spotlight t' = spotlight t \<and> same_config t t'"
  using assms
  by (auto simp: locate_def resolvable_def Let_def toggleResizeObserver_def getPopupPos_def
      getCenterPos_def same_config_def split: option.splits prod.splits)

lemma makeStep_returns:
  assumes "stepAt (steps t) (step t) = Some s" "popupElement t = Some p"
    and "resolvable pg s" "ready t"
  shows "returned (makeStep pg (t, w)) \<and> ready (fst (state_of (makeStep pg (t, w))))"
proof -
  let ?t1 = "t\<lparr>popupElement := Some (p\<lparr>innerHTML := popupHtml t s\<rparr>)\<rparr>"
  have up: "updatePopup t = Inr ?t1" using assms(1,2) by (rule updatePopup_Inr)
  have "popupElement ?t1 = Some (p\<lparr>innerHTML := popupHtml t s\<rparr>)" by simp
  from locate_returns [OF this assms(3), of w]
  obtain c t2 w2 where loc: "locate pg s (?t1, w) = (Inr c, (t2, w2))"
    and t2: "popupElement t2 = Some (p\<lparr>innerHTML := popupHtml t s\<rparr>)"
      "spotlight t2 = spotlight ?t1" "same_config ?t1 t2"
    by blast
  let ?t3 = "t2\<lparr>popupElement := Some (p\<lparr>innerHTML := popupHtml t s,
                  style_left := Some (fst c), style_top := Some (snd c)\<rparr>)\<rparr>"
  have mv: "movePopup c t2 = Inr ?t3" using t2(1) by (simp add: movePopup_def)
  have "ready ?t3" using assms(4) t2(2,3) by (simp add: ready_def same_config_def)
  from moveSpotlight_returns [OF this, of pg w2]
  obtain t4 where ms: "moveSpotlight pg (?t3, w2) = Done (t4, w2)" and r4: "ready t4"
    by blast
  have "makeStep pg (t, w)
      = Done (t4, if disableScroll (options t4) then toggleScroll False w2 else w2)"
    using assms(1) up loc mv ms by (simp add: makeStep_def)
  then show ?thesis using r4 by simp
qed

subsection \<open>Start, then \<open>next\<close> until the end\<close>

lemma start_ready:
  "currentState t \<noteq> 1 \<Longrightarrow>
   start pg (t, w) =
     makeStep pg
       (if spotlight_opt (options t)
        then (createPopup (t\<lparr>currentState := 1\<rparr>))\<lparr>spotlight := Some (new_Spotlight (Some 10))\<rparr>
        else createPopup (t\<lparr>currentState := 1\<rparr>),
        setWindowResizeEvent True w)"
  by (simp add: start_def Let_def createPopup_def)

lemma start_shows_first:
  assumes "currentState t \<noteq> 1" "step t = Num 0" "steps t \<noteq> []"
  shows "shows_step t 0 (fst (state_of (start pg (t, w))))"
proof -
  let ?t2 = "createPopup (t\<lparr>currentState := 1\<rparr>)"
  let ?t3 = "if spotlight_opt (options t)
             then ?t2\<lparr>spotlight := Some (new_Spotlight (Some 10))\<rparr> else ?t2"
  let ?p = "createElement_div\<lparr>classList := [''tour-popup-container''], attached := True\<rparr>"
  have st: "start pg (t, w) = makeStep pg (?t3, setWindowResizeEvent True w)"
    using assms(1) by (rule start_ready)
  have cfg: "same_config (t\<lparr>currentState := 1, step := Num 0\<rparr>) ?t3"
    using assms(2) by (simp add: same_config_def createPopup_def)
  have at: "stepAt (steps ?t3) (step ?t3) = Some (steps t ! 0)"
    using assms(2,3) stepAt_in_range [of 0 "steps t"] by (simp add: createPopup_def)
  have pop: "popupElement ?t3 = Some ?p" by (simp add: createPopup_def)
  obtain t' w' where res: "state_of (makeStep pg (?t3, setWindowResizeEvent True w)) = (t', w')"
    by (metis prod.exhaust)
  from makeStep_frame [OF at pop res]
  obtain p' where fr: "same_config ?t3 t'" "popupElement t' = Some p'"
    "innerHTML p' = popupHtml ?t3 (steps t ! 0)" "attached p' = attached ?p"
    by blast
  have html: "popupHtml ?t3 (steps t ! 0) = popupHtml (t\<lparr>step := Num 0\<rparr>) (steps t ! 0)"
    using assms(2) by (simp add: popupHtml_def isLastStep_def createPopup_def split: prod.splits)
  have "shows_step t 0 t'"
    unfolding shows_step_def using fr html same_config_trans [OF cfg fr(1)] by simp
  then show ?thesis using st res by simp
qed

lemma start_returns:
  assumes "currentState t \<noteq> 1" "step t = Num 0" "steps t \<noteq> []" "resolvable pg (steps t ! 0)"
  shows "returned (start pg (t, w)) \<and> ready (fst (state_of (start pg (t, w))))"
proof -
  let ?t2 = "createPopup (t\<lparr>currentState := 1\<rparr>)"
  let ?t3 = "if spotlight_opt (options t)
             then ?t2\<lparr>spotlight := Some (new_Spotlight (Some 10))\<rparr> else ?t2"
  let ?p = "createElement_div\<lparr>classList := [''tour-popup-container''], attached := True\<rparr>"
  have st: "start pg (t, w) = makeStep pg (?t3, setWindowResizeEvent True w)"
    using assms(1) by (rule start_ready)
  have at: "stepAt (steps ?t3) (step ?t3) = Some (steps t ! 0)"
    using assms(2,3) stepAt_in_range [of 0 "steps t"] by (simp add: createPopup_def)
  have pop: "popupElement ?t3 = Some ?p" by (simp add: createPopup_def)
  have rd: "ready ?t3" by (simp add: ready_def createPopup_def new_Spotlight_panels)
  show ?thesis
    unfolding st using makeStep_returns [OF at pop assms(4) rd] by blast
qed

text \<open>The tour that \<open>next\<close> hands to \<open>makeStep\<close> or \<open>endTour\<close>.\<close>

lemma next_advances:
  assumes "shows_step t0 k t"
  shows "\<exists>p. same_config (t0\<lparr>currentState := 1, step := Num (int (Suc k))\<rparr>)
                (unobserveCurrent (t\<lparr>step := num_add (step t) 1\<rparr>))
     \<and> popupElement (unobserveCurrent (t\<lparr>step := num_add (step t) 1\<rparr>)) = Some p
     \<and> attached p
     \<and> spotlight (unobserveCurrent (t\<lparr>step := num_add (step t) 1\<rparr>)) = spotlight t"
proof -
  from assms obtain p where cfg: "same_config (t0\<lparr>currentState := 1, step := Num (int k)\<rparr>) t"
    and pop: "popupElement t = Some p" "attached p"
    unfolding shows_step_def by blast
  show ?thesis
    using cfg pop unobserveCurrent_frame [of "t\<lparr>step := num_add (step t) 1\<rparr>"]
    by (simp add: same_config_def num_add_def add.commute)
qed

lemma next_shows_next:
  assumes "shows_step t0 k t" "Suc k < length (steps t0)"
  shows "shows_step t0 (Suc k) (fst (state_of (next pg (t, w))))"
proof -
  let ?t1 = "unobserveCurrent (t\<lparr>step := num_add (step t) 1\<rparr>)"
  from next_advances [OF assms(1)] obtain p where
    cfg1: "same_config (t0\<lparr>currentState := 1, step := Num (int (Suc k))\<rparr>) ?t1"
    and pop1: "popupElement ?t1 = Some p" "attached p"
    by blast
  have s1: "step ?t1 = Num (int (Suc k))" "steps ?t1 = steps t0"
    using cfg1 by (simp_all add: same_config_def)
  have nx: "next pg (t, w) = makeStep pg (?t1, w)"
    using s1 assms(2) by (simp add: next_def Let_def num_less_def)
  have at: "stepAt (steps ?t1) (step ?t1) = Some (steps t0 ! Suc k)"
    using s1 assms(2) stepAt_in_range [of "Suc k" "steps t0"] by simp
  obtain t' w' where res: "state_of (makeStep pg (?t1, w)) = (t', w')"
    by (metis prod.exhaust)
  from makeStep_frame [OF at pop1(1) res]
  obtain p' where fr: "same_config ?t1 t'" "popupElement t' = Some p'"
    "innerHTML p' = popupHtml ?t1 (steps t0 ! Suc k)" "attached p' = attached p"
    by blast
  have html: "popupHtml ?t1 (steps t0 ! Suc k)
      = popupHtml (t0\<lparr>step := Num (int (Suc k))\<rparr>) (steps t0 ! Suc k)"
    using popupHtml_cong [OF cfg1] by (simp add: popupHtml_currentState)
  have "shows_step t0 (Suc k) t'"
    unfolding shows_step_def using fr html pop1(2) same_config_trans [OF cfg1 fr(1)] by simp
  then show ?thesis using nx res by simp
qed

lemma next_ends_tour:
  assumes "shows_step t0 k t" "Suc k = length (steps t0)"
  shows "currentState (fst (state_of (next pg (t, w)))) = 2
     \<and> step (fst (state_of (next pg (t, w)))) = Num (int (length (steps t0)))
     \<and> steps (fst (state_of (next pg (t, w)))) = steps t0
     \<and> (\<exists>p. popupElement (fst (state_of (next pg (t, w)))) = Some p \<and> \<not> attached p)"
proof -
  let ?t1 = "unobserveCurrent (t\<lparr>step := num_add (step t) 1\<rparr>)"
  from next_advances [OF assms(1)] obtain p where
    cfg1: "same_config (t0\<lparr>currentState := 1, step := Num (int (Suc k))\<rparr>) ?t1"
    and pop1: "popupElement ?t1 = Some p"
    by blast
  have s1: "step ?t1 = Num (int (Suc k))" "steps ?t1 = steps t0"
    using cfg1 by (simp_all add: same_config_def)
  have nx: "next pg (t, w) = endTour (?t1, w)"
    using s1 assms(2) by (simp add: next_def Let_def num_less_def)
  show ?thesis
    unfolding nx using pop1 s1 assms(2)
    by (auto simp: endTour_def Let_def split: option.splits)
qed

lemma next_returns:
  assumes "shows_step t0 k t" "ready t" "Suc k < length (steps t0)"
    and "resolvable pg (steps t0 ! Suc k)"
  shows "returned (next pg (t, w)) \<and> ready (fst (state_of (next pg (t, w))))"
proof -
  let ?t1 = "unobserveCurrent (t\<lparr>step := num_add (step t) 1\<rparr>)"
  from next_advances [OF assms(1)] obtain p where
    cfg1: "same_config (t0\<lparr>currentState := 1, step := Num (int (Suc k))\<rparr>) ?t1"
    and pop1: "popupElement ?t1 = Some p" and sp1: "spotlight ?t1 = spotlight t"
    by blast
  have cfg: "same_config (t0\<lparr>currentState := 1, step := Num (int k)\<rparr>) t"
    using assms(1) by (simp add: shows_step_def)
  have s1: "step ?t1 = Num (int (Suc k))" "steps ?t1 = steps t0"
    using cfg1 by (simp_all add: same_config_def)
  have rd: "ready ?t1" using assms(2) cfg cfg1 sp1 by (simp add: ready_def same_config_def)
  have nx: "next pg (t, w) = makeStep pg (?t1, w)"
    using s1 assms(3) by (simp add: next_def Let_def num_less_def)
  have at: "stepAt (steps ?t1) (step ?t1) = Some (steps t0 ! Suc k)"
    using s1 assms(3) stepAt_in_range [of "Suc k" "steps t0"] by simp
  show ?thesis
    unfolding nx using makeStep_returns [OF at pop1 assms(4) rd] by blast
qed

lemma next_returns_at_end:
  assumes "shows_step t0 k t" "ready t" "Suc k = length (steps t0)"
  shows "returned (next pg (t, w))"
proof -
  let ?t1 = "unobserveCurrent (t\<lparr>step := num_add (step t) 1\<rparr>)"
  from next_advances [OF assms(1)] obtain p where
    cfg1: "same_config (t0\<lparr>currentState := 1, step := Num (int (Suc k))\<rparr>) ?t1"
    and pop1: "popupElement ?t1 = Some p" and sp1: "spotlight ?t1 = spotlight t"
    by blast
  have cfg: "same_config (t0\<lparr>currentState := 1, step := Num (int k)\<rparr>) t"
    using assms(1) by (simp add: shows_step_def)
  have s1: "step ?t1 = Num (int (Suc k))" "steps ?t1 = steps t0"
    using cfg1 by (simp_all add: same_config_def)
  have rd: "ready ?t1" using assms(2) cfg cfg1 sp1 by (simp add: ready_def same_config_def)
  have nx: "next pg (t, w) = endTour (?t1, w)"
    using s1 assms(3) by (simp add: next_def Let_def num_less_def)
  show ?thesis
    unfolding nx using pop1 rd
    by (auto simp: endTour_def Let_def ready_def split: option.splits if_splits)
qed

lemma after_nexts_Suc:
  "after_nexts pg (Suc k) tw = state_of (next pg (after_nexts pg k tw))"
  by (simp add: after_nexts_def)

lemma after_nexts_shows:
  assumes "currentState t \<noteq> 1" "step t = Num 0" "steps t \<noteq> []"
  shows "k < length (steps t) \<Longrightarrow> shows_step t k (fst (after_nexts pg k (t, w)))"
proof (induction k)
  case 0
  then show ?case using start_shows_first [OF assms] by (simp add: after_nexts_def)
next
  case (Suc k)
  then have ih: "shows_step t k (fst (after_nexts pg k (t, w)))" by simp
  show ?case
    using next_shows_next [OF ih Suc.prems, of pg "snd (after_nexts pg k (t, w))"]
    by (simp add: after_nexts_Suc)
qed

lemma after_nexts_ready:
  assumes "currentState t \<noteq> 1" "step t = Num 0" "steps t \<noteq> []"
    and "\<forall>s \<in> set (steps t). resolvable pg s"
  shows "k < length (steps t) \<Longrightarrow> ready (fst (after_nexts pg k (t, w)))"
proof (induction k)
  case 0
  have "resolvable pg (steps t ! 0)" using assms(3,4) by simp
  from start_returns [OF assms(1,2,3) this]
  show ?case by (simp add: after_nexts_def)
next
  case (Suc k)
  then have ih: "ready (fst (after_nexts pg k (t, w)))" by simp
  have sh: "shows_step t k (fst (after_nexts pg k (t, w)))"
    using after_nexts_shows [OF assms(1,2,3)] Suc.prems by simp
  have "resolvable pg (steps t ! Suc k)" using assms(4) Suc.prems by simp
  from next_returns [OF sh ih Suc.prems this, of "snd (after_nexts pg k (t, w))"]
  show ?case by (simp add: after_nexts_Suc)
qed

lemma all_calls_return:
  assumes "currentState t \<noteq> 1" "step t = Num 0" "steps t \<noteq> []"
    and "\<forall>s \<in> set (steps t). resolvable pg s"
  shows "returned (start pg (t, w))
     \<and> (\<forall>k < length (steps t). returned (next pg (after_nexts pg k (t, w))))"
proof
  have "resolvable pg (steps t ! 0)" using assms(3,4) by simp
  from start_returns [OF assms(1,2,3) this]
  show "returned (start pg (t, w))" by simp
next
  show "\<forall>k < length (steps t). returned (next pg (after_nexts pg k (t, w)))"
  proof (intro allI impI)
    fix k assume k: "k < length (steps t)"
    have sh: "shows_step t k (fst (after_nexts pg k (t, w)))"
      using after_nexts_shows [OF assms(1,2,3)] k by simp
    have rd: "ready (fst (after_nexts pg k (t, w)))"
      using after_nexts_ready [OF assms] k by simp
    show "returned (next pg (after_nexts pg k (t, w)))"
    proof (cases "Suc k < length (steps t)")
      case True
      have "resolvable pg (steps t ! Suc k)" using assms(4) True by simp
      from next_returns [OF sh rd True this, of "snd (after_nexts pg k (t, w))"]
      show ?thesis by simp
    next
      case False
      then have "Suc k = length (steps t)" using k by simp
      from next_returns_at_end [OF sh rd this, of pg "snd (after_nexts pg k (t, w))"]
      show ?thesis by simp
    qed
  qed
qed

lemma after_nexts_finished:
  assumes "currentState t \<noteq> 1" "step t = Num 0" "steps t \<noteq> []"
  shows "currentState (fst (after_nexts pg (length (steps t)) (t, w))) = 2
     \<and> step (fst (after_nexts pg (length (steps t)) (t, w))) = Num (int (length (steps t)))
     \<and> steps (fst (after_nexts pg (length (steps t)) (t, w))) = steps t
     \<and> (\<exists>p. popupElement (fst (after_nexts pg (length (steps t)) (t, w))) = Some p
            \<and> \<not> attached p)"
proof -
  obtain n where n: "length (steps t) = Suc n" using assms(3) by (cases "steps t") auto
  have last: "shows_step t n (fst (after_nexts pg n (t, w)))"
    using after_nexts_shows [OF assms, of n] n by simp
  have "Suc n = length (steps t)" using n by simp
  from next_ends_tour [OF last this, of pg "snd (after_nexts pg n (t, w))"]
  show ?thesis by (simp add: n after_nexts_Suc)
qed

text \<open>
  C1. For every step sequence of length \<open>N \<ge> 1\<close>: after \<open>start()\<close> from the Configuring
  state with index 0 and then \<open>k < N\<close> calls of \<open>next()\<close> the state is Started, the index is
  \<open>k\<close> and the popup, in the document, shows step \<open>k\<close> (so \<open>start\<close> renders step 0 and each of
  the first \<open>N - 1\<close> calls increments the index and renders again); after the \<open>N\<close>th call the
  state is Finished, the index is \<open>N\<close> and the popup is out of the document. The state is
  thus Finished after the \<open>N\<close>th call and after no earlier one. When every step's target is
  an element of the page, \<open>start\<close> and each of the \<open>N\<close> calls return without an exception.
\<close>

theorem next_finishes_on_last_call:
  assumes "currentState t = Configuring" and "step t = Num 0" and "steps t \<noteq> []"
  shows "(\<forall>k < length (steps t).
            currentState (fst (after_nexts pg k (t, w))) = Started
          \<and> step (fst (after_nexts pg k (t, w))) = Num (int k)
          \<and> (\<exists>p. popupElement (fst (after_nexts pg k (t, w))) = Some p \<and> attached p
                \<and> innerHTML p = popupHtml (t\<lparr>step := Num (int k)\<rparr>) (steps t ! k)))
       \<and> currentState (fst (after_nexts pg (length (steps t)) (t, w))) = Finished
       \<and> step (fst (after_nexts pg (length (steps t)) (t, w))) = Num (int (length (steps t)))
       \<and> (\<exists>p. popupElement (fst (after_nexts pg (length (steps t)) (t, w))) = Some p
                \<and> \<not> attached p)
       \<and> ((\<forall>s \<in> set (steps t). resolvable pg s) \<longrightarrow>
            returned (start pg (t, w))
            \<and> (\<forall>k < length (steps t). returned (next pg (after_nexts pg k (t, w)))))"
proof -
  have ne: "currentState t \<noteq> 1" using assms(1) by (simp add: Configuring_def)
  have run: "\<And>k. k < length (steps t) \<Longrightarrow> shows_step t k (fst (after_nexts pg k (t, w)))"
    using after_nexts_shows [OF ne assms(2,3)] by blast
  have first: "\<forall>k < length (steps t).
            currentState (fst (after_nexts pg k (t, w))) = Started
          \<and> step (fst (after_nexts pg k (t, w))) = Num (int k)
          \<and> (\<exists>p. popupElement (fst (after_nexts pg k (t, w))) = Some p \<and> attached p
                \<and> innerHTML p = popupHtml (t\<lparr>step := Num (int k)\<rparr>) (steps t ! k))"
    using run by (auto simp: shows_step_def same_config_def Started_def)
  have last: "currentState (fst (after_nexts pg (length (steps t)) (t, w))) = Finished
       \<and> step (fst (after_nexts pg (length (steps t)) (t, w))) = Num (int (length (steps t)))
       \<and> (\<exists>p. popupElement (fst (after_nexts pg (length (steps t)) (t, w))) = Some p
                \<and> \<not> attached p)"
    using after_nexts_finished [OF ne assms(2,3), of pg w] by (simp add: Finished_def)
  have ret: "(\<forall>s \<in> set (steps t). resolvable pg s) \<longrightarrow>
            returned (start pg (t, w))
            \<and> (\<forall>k < length (steps t). returned (next pg (after_nexts pg k (t, w))))"
    using all_calls_return [OF ne assms(2,3)] by blast
  from first last ret show ?thesis by blast
qed

lemma tour0_fields:
  "currentState tour0 = 0" "step tour0 = Num 0" "length (steps tour0) = 2"
  "\<forall>s \<in> set (steps tour0). resolvable page0 s"
  by (simp_all add: tour0_def setTextVariables_def new_Tour_def setOptions_def
      resolvable_def truthy_id_def page0_def)

theorem next_finishes_on_last_call_witness:
  "currentState (fst (after_nexts page0 0 (tour0, window0))) = Started
   \<and> currentState (fst (after_nexts page0 1 (tour0, window0))) = Started
   \<and> step (fst (after_nexts page0 1 (tour0, window0))) = Num 1
   \<and> currentState (fst (after_nexts page0 2 (tour0, window0))) = Finished
   \<and> returned (start page0 (tour0, window0))
   \<and> returned (next page0 (after_nexts page0 0 (tour0, window0)))
   \<and> returned (next page0 (after_nexts page0 1 (tour0, window0)))"
proof -
  have h1: "currentState tour0 = Configuring" by (simp add: tour0_fields Configuring_def)
  have h2: "step tour0 = Num 0" by (rule tour0_fields)
  have h3: "steps tour0 \<noteq> []" using tour0_fields(3) by auto
  note th = next_finishes_on_last_call [OF h1 h2 h3, of page0 window0]
  have a: "\<forall>k < 2. currentState (fst (after_nexts page0 k (tour0, window0))) = Started
          \<and> step (fst (after_nexts page0 k (tour0, window0))) = Num (int k)"
    using th by (simp add: tour0_fields(3))
  have b: "currentState (fst (after_nexts page0 2 (tour0, window0))) = Finished"
    using th by (simp add: tour0_fields(3))
  have c: "returned (start page0 (tour0, window0))
      \<and> (\<forall>k < 2. returned (next page0 (after_nexts page0 k (tour0, window0))))"
    using th tour0_fields(4) by (simp add: tour0_fields(3))
  have k: "(0::nat) < 2" "(1::nat) < 2" by simp_all
  from a b c k show ?thesis by (metis of_nat_1)
qed

subsection \<open>\<open>start\<close> and the state it is called in\<close>

lemma start_when_not_started:
  assumes "currentState t \<noteq> 1"
  shows "currentState (fst (state_of (start pg (t, w)))) = 1
     \<and> onresize (snd (state_of (start pg (t, w))))
     \<and> console (snd (state_of (start pg (t, w)))) = console w
     \<and> (\<exists>p. popupElement (fst (state_of (start pg (t, w)))) = Some p \<and> attached p
            \<and> classList p = [''tour-popup-container''])"
proof -
  let ?t2 = "createPopup (t\<lparr>currentState := 1\<rparr>)"
  let ?t3 = "if spotlight_opt (options t)
             then ?t2\<lparr>spotlight := Some (new_Spotlight (Some 10))\<rparr> else ?t2"
  let ?p = "createElement_div\<lparr>classList := [''tour-popup-container''], attached := True\<rparr>"
  have st: "start pg (t, w) = makeStep pg (?t3, setWindowResizeEvent True w)"
    using assms by (rule start_ready)
  have pop: "popupElement ?t3 = Some ?p" by (simp add: createPopup_def)
  have cs: "currentState ?t3 = 1" by (simp add: createPopup_def)
  from makeStep_keeps [OF pop, of pg "setWindowResizeEvent True w"] cs
  show ?thesis unfolding st by (auto simp: setWindowResizeEvent_def)
qed

text \<open>
  C4, as the claim states it, fails for the Finished state: a tour of one step that has
  been started and ended by one \<open>next()\<close> is Finished; \<open>start()\<close> then sets the state back
  to Started, logs nothing, and ends in a TypeError, since the index is past the last step.
\<close>

theorem start_from_finished_restarts:
  "currentState (fst (after_nexts page0 1 (tour1, window0))) = Finished
   \<and> currentState (fst (state_of (start page0 (after_nexts page0 1 (tour1, window0))))) = Started
   \<and> console (snd (state_of (start page0 (after_nexts page0 1 (tour1, window0)))))
       = console (snd (after_nexts page0 1 (tour1, window0)))
   \<and> \<not> returned (start page0 (after_nexts page0 1 (tour1, window0)))"
proof -
  have f: "currentState tour1 \<noteq> 1" "step tour1 = Num 0" "steps tour1 \<noteq> []"
    "length (steps tour1) = 1"
    by (simp_all add: tour1_def new_Tour_def setOptions_def)
  obtain tF wF where F: "after_nexts page0 1 (tour1, window0) = (tF, wF)"
    by (metis prod.exhaust)
  from after_nexts_finished [OF f(1,2,3), of page0 window0]
  have fin: "currentState tF = 2" "step tF = Num 1" "steps tF = steps tour1"
    using F by (simp_all add: f(4))
  have ne: "currentState tF \<noteq> 1" using fin(1) by simp
  let ?t2 = "createPopup (tF\<lparr>currentState := 1\<rparr>)"
  let ?t3 = "if spotlight_opt (options tF)
             then ?t2\<lparr>spotlight := Some (new_Spotlight (Some 10))\<rparr> else ?t2"
  have st: "start page0 (tF, wF) = makeStep page0 (?t3, setWindowResizeEvent True wF)"
    using ne by (rule start_ready)
  have "stepAt (steps ?t3) (step ?t3) = None"
    using fin(2,3) f(4) by (simp add: createPopup_def stepAt_def)
  then have "start page0 (tF, wF) = Raised TypeError (?t3, setWindowResizeEvent True wF)"
    unfolding st by (rule makeStep_out_of_range)
  then show ?thesis
    unfolding F using fin(1)
    by (simp add: Finished_def Started_def createPopup_def setWindowResizeEvent_def)
qed

text \<open>
  C4, amended. For every tour whose state is Started, \<open>start()\<close> is a no-op that reports a
  warning: the tour (state, step index, popup, spotlight and all) and the window are left
  as they were, but for the warning on the console. From every other state, Configuring or
  Finished, \<open>start()\<close> sets the state to Started, installs the resize handler, creates a
  popup in the document and logs no warning.
\<close>

theorem start_only_guards_started:
  "(currentState t = Started \<longrightarrow>
      start pg (t, w) =
        Done (t, w\<lparr>console := console w @ [Warn ''The Tour has already started.'']\<rparr>))
   \<and> (currentState t \<noteq> Started \<longrightarrow>
        currentState (fst (state_of (start pg (t, w)))) = Started
      \<and> onresize (snd (state_of (start pg (t, w))))
      \<and> console (snd (state_of (start pg (t, w)))) = console w
      \<and> (\<exists>p. popupElement (fst (state_of (start pg (t, w)))) = Some p \<and> attached p
             \<and> classList p = [''tour-popup-container'']))"
proof (intro conjI impI)
  assume "currentState t = Started"
  then show "start pg (t, w) =
        Done (t, w\<lparr>console := console w @ [Warn ''The Tour has already started.'']\<rparr>)"
    by (simp add: start_def Started_def)
next
  assume "currentState t \<noteq> Started"
  then have ne: "currentState t \<noteq> 1" by (simp add: Started_def)
  from start_when_not_started [OF ne, of pg w]
  show "currentState (fst (state_of (start pg (t, w)))) = Started"
    "onresize (snd (state_of (start pg (t, w))))"
    "console (snd (state_of (start pg (t, w)))) = console w"
    "\<exists>p. popupElement (fst (state_of (start pg (t, w)))) = Some p \<and> attached p
             \<and> classList p = [''tour-popup-container'']"
    by (simp_all add: Started_def)
qed

theorem start_only_guards_started_witness:
  "start page0 (tour0\<lparr>currentState := 1\<rparr>, window0) =
      Done (tour0\<lparr>currentState := 1\<rparr>,
            window0\<lparr>console := console window0 @ [Warn ''The Tour has already started.'']\<rparr>)
   \<and> currentState (fst (state_of (start page0 (tour0\<lparr>currentState := 2\<rparr>, window0)))) = Started
   \<and> currentState (fst (state_of (start page0 (tour0, window0)))) = Started
   \<and> console (snd (state_of (start page0 (tour0, window0)))) = console window0"
proof -
  have a: "currentState (tour0\<lparr>currentState := 1\<rparr>) = Started" by (simp add: Started_def)
  have b: "currentState (tour0\<lparr>currentState := 2\<rparr>) \<noteq> Started" by (simp add: Started_def)
  have c: "currentState tour0 \<noteq> Started" by (simp add: tour0_fields Started_def)
  show ?thesis
    using start_only_guards_started [of "tour0\<lparr>currentState := 1\<rparr>" page0 window0] a
      start_only_guards_started [of "tour0\<lparr>currentState := 2\<rparr>" page0 window0] b
      start_only_guards_started [of tour0 page0 window0] c
    by blast
qed

section \<open>Saving and loading\<close>

lemma digit_char_code: "d < 10 \<Longrightarrow> (of_char (char_of (48 + d) :: char) :: nat) = 48 + d"
  by (simp add: of_char_of)

lemma digit_of_digit_char: "d < 10 \<Longrightarrow> digit_of 10 (char_of (48 + d)) = Some d"
  by (simp add: digit_of_def digit_char_code Let_def)

lemma is_space_code: "is_space c \<Longrightarrow> (of_char c :: nat) < 48"
  by (auto simp: is_space_def)

lemma show_nat_digits: "\<forall>c \<in> set (show_nat n). \<exists>d::nat. d < 10 \<and> c = char_of (48 + d)"
proof (induction n rule: show_nat.induct)
  case (1 n)
  show ?case
  proof (cases "n < 10")
    case True
    then have "show_nat n = [char_of (48 + n)]" by (subst show_nat.simps) simp
    then show ?thesis using True by auto
  next
    case False
    then have unfold: "show_nat n = show_nat (n div 10) @ [char_of (48 + n mod 10)]"
      by (subst show_nat.simps) simp
    have "\<exists>d::nat. d < 10 \<and> (char_of (48 + n mod 10) :: char) = char_of (48 + d)"
      by (rule exI [of _ "n mod 10"]) simp
    then show ?thesis using 1 False unfolding unfold by auto
  qed
qed

lemma show_nat_not_Nil: "show_nat n \<noteq> []"
  by (subst show_nat.simps) simp

lemma leading_digits_all:
  "\<forall>c \<in> set str. \<exists>d::nat. d < 10 \<and> c = char_of (48 + d) \<Longrightarrow>
   leading_digits 10 str = map (\<lambda>c. of_char c - 48) str"
  by (induction str) (auto simp: digit_of_digit_char digit_char_code)

lemma show_nat_value:
  "foldl (\<lambda>acc d. acc * 10 + d) 0 (map (\<lambda>c. of_char c - 48) (show_nat n)) = n"
proof (induction n rule: show_nat.induct)
  case (1 n)
  show ?case
  proof (cases "n < 10")
    case True
    then show ?thesis by (subst show_nat.simps) (simp add: digit_char_code)
  next
    case False
    have "n mod 10 < 10" by simp
    then show ?thesis
      using 1 False by (subst show_nat.simps) (simp add: digit_char_code)
  qed
qed

lemma parseInt_digits:
  assumes "str \<noteq> []" and "\<forall>c \<in> set str. \<exists>d::nat. d < 10 \<and> c = char_of (48 + d)"
  shows "parseInt str = Num (int (foldl (\<lambda>acc d. acc * 10 + d) 0 (map (\<lambda>c. of_char c - 48) str)))"
    and "parseInt (CHR ''-'' # str)
      = Num (- int (foldl (\<lambda>acc d. acc * 10 + d) 0 (map (\<lambda>c. of_char c - 48) str)))"
proof -
  obtain c cs where s: "str = c # cs" using assms(1) by (cases str) auto
  have codes: "\<forall>c \<in> set str. (48::nat) \<le> of_char c \<and> (of_char c :: nat) \<le> 57"
    using assms(2) by (auto simp: digit_char_code)
  have c: "\<not> is_space c" "c \<noteq> CHR ''-''" "c \<noteq> CHR ''+''"
    using codes s is_space_code [of c] by auto
  have dw: "dropWhile is_space str = str" using c(1) s by simp
  have sign: "(case str of [] \<Rightarrow> False | c # cs \<Rightarrow> c = CHR ''-'') = False"
    "(case str of [] \<Rightarrow> []
      | c # cs \<Rightarrow> if c = CHR ''-'' \<or> c = CHR ''+'' then cs else str) = str"
    using c(2,3) s by simp_all
  have nohex: "prefix ''0x'' str = False" "prefix ''0X'' str = False"
    using codes by (auto simp: prefix_def)
  have ld: "leading_digits 10 str = map (\<lambda>c. of_char c - 48) str"
    using assms(2) by (rule leading_digits_all)
  show "parseInt str = Num (int (foldl (\<lambda>acc d. acc * 10 + d) 0 (map (\<lambda>c. of_char c - 48) str)))"
    unfolding parseInt_def Let_def dw sign nohex using assms(1) by (simp add: ld)
  have m: "dropWhile is_space (CHR ''-'' # str) = CHR ''-'' # str" by (simp add: is_space_def)
  show "parseInt (CHR ''-'' # str)
      = Num (- int (foldl (\<lambda>acc d. acc * 10 + d) 0 (map (\<lambda>c. of_char c - 48) str)))"
    unfolding parseInt_def Let_def m using assms(1) by (simp add: nohex ld)
qed

lemma parseInt_toString: "parseInt (toString (Num i)) = Num i"
proof (cases "i < 0")
  case True
  then show ?thesis
    using parseInt_digits(2) [OF show_nat_not_Nil show_nat_digits, of "nat (- i)"]
    by (simp add: toString_def show_nat_value)
next
  case False
  then show ?thesis
    using parseInt_digits(1) [OF show_nat_not_Nil show_nat_digits, of "nat i"]
    by (simp add: toString_def show_nat_value)
qed

text \<open>
  What \<open>getSavedTour\<close> makes of the object \<open>save\<close> writes, when it finds it under the key it
  reads: the steps, the options, the variables and the index come back; the state does not
  (the new tour is in the configuration state).
\<close>

lemma getSavedTour_of_saved:
  assumes "sessionStorage w ''tour'' =
      Some \<lparr>saved_currentState = toString (Num (currentState t)), saved_steps = steps t,
            saved_step = toString (Num i), saved_options = options t,
            saved_textVariables = textVariables t\<rparr>"
  shows "\<exists>t'. getSavedTour name w = Inr t' \<and> steps t' = steps t \<and> options t' = options t
     \<and> textVariables t' = textVariables t \<and> step t' = Num i \<and> currentState t' = 0"
  using assms
  by (cases "options t")
     (simp add: getSavedTour_def Let_def new_Tour_def setOptions_def setTextVariables_def
        parseInt_toString)

text \<open>
  C3. \<open>save()\<close> writes the tour under the key \<open>Tour.js\<close> and \<open>getSavedTour\<close> reads the key
  \<open>tour\<close>: saving leaves the entry \<open>tour\<close> as it was, and on a storage without that entry
  (the empty storage of a fresh session, for one) loading after saving raises a TypeError
  instead of giving the tour back.
\<close>

theorem save_then_getSavedTour_raises:
  "sessionStorage (save t w) ''tour'' = sessionStorage w ''tour''
   \<and> getSavedTour name (save t (w\<lparr>sessionStorage := Map.empty\<rparr>)) = Inl TypeError
   \<and> getSavedTour ''tour'' (save tour0 window0) = Inl TypeError"
  by (simp add: save_def getSavedTour_def window0_def)

end
